theory Spec2Isabelle
  imports Complex_Main "HOL-Library.AList"
begin

section \<open>The data of heredity.py\<close>

text \<open>
  The program computes with Python floats. The embedding idealises them as exact
  rationals: every constant of \<open>PROBS\<close> is a decimal fraction, and the program only
  adds, multiplies and divides. Rounding is not modelled.

  A Python \<open>dict\<close> that is iterated is an association list in insertion order (its
  keys are distinct); a dictionary that is only read is a map. A Python \<open>set\<close> is a
  HOL set. The nested dictionaries of the posterior table have the fixed keys
  \<open>2, 1, 0\<close> and \<open>True, False\<close>, so one entry of the table is a record of five numbers.
\<close>

datatype error = KeyError | UnboundLocalError

text \<open>
  The table \<open>PROBS\<close>. The functions below take it as a parameter \<open>P\<close>, the program
  runs them at \<open>P = PROBS\<close>.
\<close>

record probs =
  gene :: "nat \<rightharpoonup> rat"
  trait :: "nat \<rightharpoonup> (bool \<Rightarrow> rat)"
  mutation :: rat

definition PROBS :: probs where
  "PROBS = \<lparr>
     gene = [2 \<mapsto> 0.01, 1 \<mapsto> 0.03, 0 \<mapsto> 0.96],
     trait = [2 \<mapsto> (\<lambda>t. if t then 0.65 else 0.35),
              1 \<mapsto> (\<lambda>t. if t then 0.56 else 0.44),
              0 \<mapsto> (\<lambda>t. if t then 0.01 else 0.99)],
     mutation = 0.01 \<rparr>"

text \<open>One value of the dictionary \<open>people\<close>, as \<open>load_data\<close> builds it.\<close>

record person =
  name :: string
  mother :: "string option"
  father :: "string option"
  trait_obs :: "bool option"

type_synonym people = "(string \<times> person) list"

text \<open>One value of the dictionary \<open>probabilities\<close>: \<open>{"gene": {2, 1, 0}, "trait": {True, False}}\<close>.\<close>

record entry =
  gene2 :: rat
  gene1 :: rat
  gene0 :: rat
  trait_True :: rat
  trait_False :: rat

type_synonym probabilities = "(string \<times> entry) list"

section \<open>Errors\<close>

definition bind_err :: "error + 'a \<Rightarrow> ('a \<Rightarrow> error + 'b) \<Rightarrow> error + 'b" where
  "bind_err m f = (case m of Inl e \<Rightarrow> Inl e | Inr x \<Rightarrow> f x)"

text \<open>\<open>d[k]\<close>: a missing key raises \<open>KeyError\<close>.\<close>

definition lookup :: "('k \<rightharpoonup> 'v) \<Rightarrow> 'k \<Rightarrow> error + 'v" where
  "lookup d k = (case d k of None \<Rightarrow> Inl KeyError | Some v \<Rightarrow> Inr v)"

text \<open>
  \<open>d[k]\<close> where \<open>k\<close> is a field that may hold Python's \<open>None\<close>; the keys of \<open>d\<close> are
  strings, so \<open>None\<close> is a missing key.
\<close>

definition lookup_ref :: "(string \<rightharpoonup> 'v) \<Rightarrow> string option \<Rightarrow> error + 'v" where
  "lookup_ref d k = (case k of None \<Rightarrow> Inl KeyError | Some n \<Rightarrow> lookup d n)"

text \<open>A loop whose body may raise: the first error ends it.\<close>

fun map_err :: "('a \<Rightarrow> error + 'b) \<Rightarrow> 'a list \<Rightarrow> error + 'b list" where
  "map_err f [] = Inr []"
| "map_err f (x # xs) =
     (case f x of Inl e \<Rightarrow> Inl e
      | Inr y \<Rightarrow> (case map_err f xs of Inl e \<Rightarrow> Inl e | Inr ys \<Rightarrow> Inr (y # ys)))"

fun fold_err :: "('a \<Rightarrow> 's \<Rightarrow> error + 's) \<Rightarrow> 'a list \<Rightarrow> 's \<Rightarrow> error + 's" where
  "fold_err f [] s = Inr s"
| "fold_err f (x # xs) s = (case f x s of Inl e \<Rightarrow> Inl e | Inr s' \<Rightarrow> fold_err f xs s')"

section \<open>joint_probability\<close>

text \<open>Lines 142-154: the dictionaries \<open>genes\<close> and \<open>trait\<close>, one key per person of \<open>people\<close>.\<close>

definition gene_count :: "string set \<Rightarrow> string set \<Rightarrow> string \<Rightarrow> nat" where
  "gene_count one_gene two_genes person =
     (if person \<in> one_gene then 1 else if person \<in> two_genes then 2 else 0)"

definition parse_genes :: "people \<Rightarrow> string set \<Rightarrow> string set \<Rightarrow> (string \<rightharpoonup> nat)" where
  "parse_genes people one_gene two_genes =
     fold (\<lambda>person genes. genes(person \<mapsto> gene_count one_gene two_genes person))
       (map fst people) Map.empty"

definition parse_trait :: "people \<Rightarrow> string set \<Rightarrow> (string \<rightharpoonup> bool)" where
  "parse_trait people have_trait =
     fold (\<lambda>person trait. trait(person \<mapsto> (if person \<in> have_trait then True else False)))
       (map fst people) Map.empty"

text \<open>Lines 167-172: the probability that a parent with \<open>parent_genes\<close> copies passes one on.\<close>

definition p_parents :: "probs \<Rightarrow> nat \<Rightarrow> rat" where
  "p_parents P parent_genes =
     (if parent_genes = 1 then 0.5 * (1 - mutation P) + 0.5 * mutation P
      else if parent_genes = 2 then 1 - mutation P
      else mutation P)"

text \<open>
  Lines 173-179: the \<open>if/elif/elif\<close> chain has no \<open>else\<close>, so in a fourth case
  \<open>p_gene\<close> is not assigned (\<open>None\<close> here). The dictionary \<open>genes\<close> only holds 1, 2 and
  0, so that case is never reached.
\<close>

definition child_p_gene :: "nat \<Rightarrow> rat \<Rightarrow> rat \<Rightarrow> rat option" where
  "child_p_gene g p_father p_mother =
     (if g = 1 then Some (p_father * (1 - p_mother) + p_mother * (1 - p_father))
      else if g = 2 then Some (p_father * p_mother)
      else if g = 0 then Some ((1 - p_father) * (1 - p_mother))
      else None)"

text \<open>
  Lines 158-183: the body of the loop over \<open>people\<close>, the value stored in \<open>p_list\<close>.
  The lookups are in the order in which the program makes them; \<open>p_gene\<close> is read last,
  in line 182.
\<close>

definition person_p ::
  "probs \<Rightarrow> people \<Rightarrow> (string \<rightharpoonup> nat) \<Rightarrow> (string \<rightharpoonup> bool) \<Rightarrow> string \<Rightarrow> error + rat" where
  "person_p P people genes trait_d person =
     bind_err (lookup (map_of people) person) (\<lambda>r.
       if mother r = None \<and> father r = None then
         bind_err (lookup genes person) (\<lambda>g.
         bind_err (lookup (gene P) g) (\<lambda>p_gene.
         bind_err (lookup (trait P) g) (\<lambda>row.
         bind_err (lookup trait_d person) (\<lambda>t.
         Inr (p_gene * row t)))))
       else
         bind_err (lookup_ref genes (father r)) (\<lambda>father_genes.
         bind_err (lookup_ref genes (mother r)) (\<lambda>mother_genes.
         bind_err (lookup genes person) (\<lambda>g.
         bind_err (lookup (trait P) g) (\<lambda>row.
         bind_err (lookup trait_d person) (\<lambda>t.
         case child_p_gene g (p_parents P father_genes) (p_parents P mother_genes) of
           None \<Rightarrow> Inl UnboundLocalError
         | Some p_gene \<Rightarrow> Inr (p_gene * row t)))))))"

definition joint_probability ::
  "probs \<Rightarrow> people \<Rightarrow> string set \<Rightarrow> string set \<Rightarrow> string set \<Rightarrow> error + rat" where
  "joint_probability P people one_gene two_genes have_trait =
     (let genes = parse_genes people one_gene two_genes;
          trait_d = parse_trait people have_trait
      in bind_err (map_err (person_p P people genes trait_d) (map fst people)) (\<lambda>p_list.
           Inr (fold (\<lambda>p joint_p. joint_p * p) p_list 1)))"

section \<open>powerset\<close>

text \<open>
  \<open>itertools.combinations(s, r)\<close>: the subsequences of \<open>s\<close> of length \<open>r\<close>, those
  with an earlier first element first.
\<close>

fun combinations :: "'a list \<Rightarrow> nat \<Rightarrow> 'a list list" where
  "combinations xs 0 = [[]]"
| "combinations [] (Suc r) = []"
| "combinations (x # xs) (Suc r) = map ((#) x) (combinations xs r) @ combinations xs (Suc r)"

text \<open>
  \<open>powerset\<close> after its first line \<open>s = list(s)\<close>: the argument is the set as a list, in
  its iteration order.
\<close>

definition powerset :: "'a list \<Rightarrow> 'a set list" where
  "powerset s = map set (concat (map (combinations s) [0..<length s + 1]))"

section \<open>update and normalize\<close>

definition update_entry ::
  "string set \<Rightarrow> string set \<Rightarrow> string set \<Rightarrow> rat \<Rightarrow> string \<Rightarrow> entry \<Rightarrow> entry" where
  "update_entry one_gene two_genes have_trait p person e =
     (let e1 = (if person \<in> one_gene then e\<lparr>gene1 := gene1 e + p\<rparr>
                else if person \<in> two_genes then e\<lparr>gene2 := gene2 e + p\<rparr>
                else e\<lparr>gene0 := gene0 e + p\<rparr>)
      in if person \<in> have_trait then e1\<lparr>trait_True := trait_True e1 + p\<rparr>
         else e1\<lparr>trait_False := trait_False e1 + p\<rparr>)"

definition update ::
  "probabilities \<Rightarrow> string set \<Rightarrow> string set \<Rightarrow> string set \<Rightarrow> rat \<Rightarrow> probabilities" where
  "update probabilities one_gene two_genes have_trait p =
     map (\<lambda>(person, e). (person, update_entry one_gene two_genes have_trait p person e))
       probabilities"

text \<open>
  The body of the loop of \<open>normalize\<close>. \<open>continue\<close> goes on with the next person, so
  a zero \<open>gene_sum\<close> also leaves the trait distribution as it is; the trait values are
  divided by \<open>gene_sum\<close>, as line 240 and line 241 do.
\<close>

definition normalize_entry :: "entry \<Rightarrow> entry" where
  "normalize_entry e =
     (let gene_sum = 0 + gene2 e + gene1 e + gene0 e in
      if gene_sum = 0 then e
      else
        let e1 = e\<lparr>gene1 := gene1 e / gene_sum\<rparr>;
            e2 = e1\<lparr>gene2 := gene2 e1 / gene_sum\<rparr>;
            e3 = e2\<lparr>gene0 := gene0 e2 / gene_sum\<rparr>;
            trait_sum = 0 + trait_True e3 + trait_False e3
        in if trait_sum = 0 then e3
           else
             let e4 = e3\<lparr>trait_True := trait_True e3 / gene_sum\<rparr>
             in e4\<lparr>trait_False := trait_False e4 / gene_sum\<rparr>)"

definition normalize :: "probabilities \<Rightarrow> probabilities" where
  "normalize probabilities = map (\<lambda>(person, e). (person, normalize_entry e)) probabilities"

section \<open>load_data\<close>

text \<open>
  One row of the CSV file as \<open>csv.DictReader\<close> yields it; a blank field is the empty
  string. Reading the file is not modelled: \<open>load_data\<close> takes the rows.
\<close>

record row =
  row_name :: string
  row_mother :: string
  row_father :: string
  row_trait :: string

definition or_None :: "string \<Rightarrow> string option" where
  "or_None s = (if s = [] then None else Some s)"

definition person_of_row :: "row \<Rightarrow> person" where
  "person_of_row r =
     \<lparr> name = row_name r,
       mother = or_None (row_mother r),
       father = or_None (row_father r),
       trait_obs = (if row_trait r = ''1'' then Some True
                    else if row_trait r = ''0'' then Some False else None) \<rparr>"

text \<open>\<open>data[name] = ...\<close>: a name that is already a key keeps its place and gets the new value.\<close>

definition load_data :: "row list \<Rightarrow> people" where
  "load_data rows =
     fold (\<lambda>r data. AList.update (row_name r) (person_of_row r) data) rows []"

section \<open>main\<close>

definition init_probabilities :: "people \<Rightarrow> probabilities" where
  "init_probabilities people =
     map (\<lambda>person. (person,
            \<lparr>gene2 = 0, gene1 = 0, gene0 = 0, trait_True = 0, trait_False = 0\<rparr>))
       (map fst people)"

text \<open>
  Lines 67-71. Every \<open>person\<close> of \<open>names\<close> is a key of \<open>people\<close>, so \<open>people[person]\<close>
  is there.
\<close>

definition fails_evidence :: "people \<Rightarrow> string set \<Rightarrow> string set \<Rightarrow> bool" where
  "fails_evidence people names have_trait =
     (\<exists>person\<in>names.
        case map_of people person of
          None \<Rightarrow> False
        | Some r \<Rightarrow> trait_obs r \<noteq> None \<and> trait_obs r \<noteq> Some (person \<in> have_trait))"

text \<open>
  Lines 63-80. The rows of the file are the argument of \<open>main\<close>, its result is the table
  that the program prints, or the exception that ends it. Python leaves the iteration order of a set open: \<open>as_list\<close> stands for
  \<open>list(s)\<close> in \<open>powerset\<close>, and \<open>lists_sets\<close> says all that is known of it.
\<close>

definition lists_sets :: "('a set \<Rightarrow> 'a list) \<Rightarrow> 'a set \<Rightarrow> bool" where
  "lists_sets as_list names =
     (\<forall>S. S \<subseteq> names \<longrightarrow> set (as_list S) = S \<and> distinct (as_list S))"

definition main_loop :: "(string set \<Rightarrow> string list) \<Rightarrow> people \<Rightarrow> error + probabilities" where
  "main_loop as_list people =
     (let names = set (map fst people) in
      fold_err (\<lambda>have_trait probabilities.
          if fails_evidence people names have_trait then Inr probabilities
          else
            fold_err (\<lambda>one_gene probabilities.
                fold_err (\<lambda>two_genes probabilities.
                    bind_err (joint_probability PROBS people one_gene two_genes have_trait) (\<lambda>p.
                      Inr (update probabilities one_gene two_genes have_trait p)))
                  (powerset (as_list (names - one_gene))) probabilities)
              (powerset (as_list names)) probabilities)
        (powerset (as_list names)) (init_probabilities people))"

definition main :: "(string set \<Rightarrow> string list) \<Rightarrow> row list \<Rightarrow> error + probabilities" where
  "main as_list rows =
     (let people = load_data rows in
      bind_err (main_loop as_list people) (\<lambda>probabilities. Inr (normalize probabilities)))"

text \<open>One order of iteration: a set lists its elements in the order of \<open>xs\<close>.\<close>

definition in_order_of :: "'a list \<Rightarrow> 'a set \<Rightarrow> 'a list" where
  "in_order_of xs S = filter (\<lambda>x. x \<in> S) xs"

text \<open>
  The hypotheses that the loops of \<open>main\<close> pass to \<open>joint_probability\<close> and \<open>update\<close>,
  as \<open>(one_gene, two_genes, have_trait)\<close>, in the order of the loops.
\<close>

definition trait_sets :: "(string set \<Rightarrow> string list) \<Rightarrow> people \<Rightarrow> string set list" where
  "trait_sets as_list people =
     (let names = set (map fst people) in
      filter (\<lambda>have_trait. \<not> fails_evidence people names have_trait)
        (powerset (as_list names)))"

definition gene_sets ::
  "(string set \<Rightarrow> string list) \<Rightarrow> people \<Rightarrow> (string set \<times> string set) list" where
  "gene_sets as_list people =
     (let names = set (map fst people) in
      concat (map (\<lambda>one_gene.
          map (\<lambda>two_genes. (one_gene, two_genes)) (powerset (as_list (names - one_gene))))
        (powerset (as_list names))))"

definition hypotheses ::
  "(string set \<Rightarrow> string list) \<Rightarrow> people \<Rightarrow> (string set \<times> string set \<times> string set) list" where
  "hypotheses as_list people =
     concat (map (\<lambda>have_trait.
         map (\<lambda>(one_gene, two_genes). (one_gene, two_genes, have_trait))
           (gene_sets as_list people))
       (trait_sets as_list people))"

section \<open>The factor of one individual, as the specification words it\<close>

text \<open>
  A well-formed pedigree: the identities are distinct, and the parents of an individual
  are both absent, or both present and both individuals of the pedigree.
\<close>

definition well_formed :: "people \<Rightarrow> bool" where
  "well_formed people =
     (distinct (map fst people) \<and>
      (\<forall>(n, r) \<in> set people.
         case (mother r, father r) of
           (None, None) \<Rightarrow> True
         | (Some m, Some f) \<Rightarrow> m \<in> fst ` set people \<and> f \<in> fst ` set people
         | _ \<Rightarrow> False))"

text \<open>
  The lookups of the probability model and the transmission and inheritance formulas of
  the specification, with the numbers of \<open>PROBS\<close>.
\<close>

definition genePrior :: "nat \<Rightarrow> rat" where
  "genePrior c = (if c = 0 then 0.96 else if c = 1 then 0.03 else 0.01)"

definition traitGivenGene :: "nat \<Rightarrow> bool \<Rightarrow> rat" where
  "traitGivenGene c t =
     (if c = 0 then (if t then 0.01 else 0.99)
      else if c = 1 then (if t then 0.56 else 0.44)
      else (if t then 0.65 else 0.35))"

definition mutationRate :: rat where
  "mutationRate = 0.01"

definition transmits :: "nat \<Rightarrow> rat" where
  "transmits parent_count =
     (if parent_count = 2 then 1 - mutationRate
      else if parent_count = 1 then 0.5
      else mutationRate)"

definition inherits :: "nat \<Rightarrow> rat \<Rightarrow> rat \<Rightarrow> rat" where
  "inherits c pf pm =
     (if c = 2 then pf * pm
      else if c = 0 then (1 - pf) * (1 - pm)
      else pf * (1 - pm) + pm * (1 - pf))"

text \<open>
  A hypothesis gives every individual a count and a trait value: \<open>count\<close> and \<open>has\<close>.
\<close>

definition individual_factor ::
  "people \<Rightarrow> (string \<Rightarrow> nat) \<Rightarrow> (string \<Rightarrow> bool) \<Rightarrow> string \<Rightarrow> rat" where
  "individual_factor people count has person =
     (case map_of people person of
        None \<Rightarrow> 1
      | Some r \<Rightarrow>
          (case (mother r, father r) of
             (Some m, Some f) \<Rightarrow>
               inherits (count person) (transmits (count f)) (transmits (count m))
                 * traitGivenGene (count person) (has person)
           | _ \<Rightarrow> genePrior (count person) * traitGivenGene (count person) (has person)))"

text \<open>The pedigree \<open>test_people\<close> of lines 245-247.\<close>

definition test_people :: people where
  "test_people =
     [(''Harry'', \<lparr>name = ''Harry'', mother = Some ''Lily'', father = Some ''James'', trait_obs = None\<rparr>),
      (''James'', \<lparr>name = ''James'', mother = None, father = None, trait_obs = Some True\<rparr>),
      (''Lily'', \<lparr>name = ''Lily'', mother = None, father = None, trait_obs = Some False\<rparr>)]"

section \<open>The invariant of the posterior table\<close>

text \<open>For every person the three gene buckets and the two trait buckets have the same sum.\<close>

definition balanced :: "probabilities \<Rightarrow> bool" where
  "balanced probabilities =
     (\<forall>(person, e) \<in> set probabilities.
        gene2 e + gene1 e + gene0 e = trait_True e + trait_False e)"

section \<open>Agreement with the observed traits\<close>

text \<open>
  A trait set agrees with the evidence when every individual whose trait is observed is
  in the set exactly if the observation is \<open>True\<close>.
\<close>

definition agrees :: "people \<Rightarrow> string set \<Rightarrow> bool" where
  "agrees people have_trait =
     (\<forall>(person, r) \<in> set people.
        case trait_obs r of None \<Rightarrow> True | Some b \<Rightarrow> (person \<in> have_trait) = b)"

text \<open>Lines 79-80: the body of the innermost loop of \<open>main\<close>.\<close>

definition accumulate ::
  "people \<Rightarrow> string set \<times> string set \<times> string set \<Rightarrow> probabilities \<Rightarrow> error + probabilities" where
  "accumulate people h probabilities =
     (case h of (one_gene, two_genes, have_trait) \<Rightarrow>
        bind_err (joint_probability PROBS people one_gene two_genes have_trait) (\<lambda>p.
          Inr (update probabilities one_gene two_genes have_trait p)))"

section \<open>Pedigrees that are not well-formed\<close>

text \<open>
  The parents of an individual are unresolved when only one is recorded, or when a
  recorded parent is no individual of the pedigree.
\<close>

definition unresolved_parents :: "people \<Rightarrow> person \<Rightarrow> bool" where
  "unresolved_parents people r =
     (case (mother r, father r) of
        (None, None) \<Rightarrow> False
      | (Some m, Some f) \<Rightarrow> m \<notin> fst ` set people \<or> f \<notin> fst ` set people
      | _ \<Rightarrow> True)"

section \<open>A family of three\<close>

text \<open>
  The product of the three factors of a family of two individuals without parents and
  their child: \<open>i\<close>, \<open>j\<close>, \<open>k\<close> are the counts and \<open>t1\<close>, \<open>t2\<close>, \<open>t3\<close> the trait values
  of the first, the second and the child; \<open>fa\<close> and \<open>ma\<close> say whether the father, the
  mother, is the first.
\<close>

definition family_weight ::
  "bool \<Rightarrow> bool \<Rightarrow> nat \<Rightarrow> nat \<Rightarrow> nat \<Rightarrow> bool \<Rightarrow> bool \<Rightarrow> bool \<Rightarrow> rat" where
  "family_weight fa ma i j k t1 t2 t3 =
     genePrior i * traitGivenGene i t1 * (genePrior j * traitGivenGene j t2) *
     (inherits k (transmits (if fa then i else j)) (transmits (if ma then i else j))
        * traitGivenGene k t3)"

section \<open>The dictionaries of joint_probability\<close>

lemma bind_err_simps [simp]:
  "bind_err (Inl e) f = Inl e" "bind_err (Inr x) f = f x"
  by (simp_all add: bind_err_def)

lemma fold_upd_map:
  "fold (\<lambda>k m. m(k \<mapsto> f k)) ks m0 = (\<lambda>x. if x \<in> set ks then Some (f x) else m0 x)"
  by (induction ks arbitrary: m0) (auto simp: fun_eq_iff)

lemma parse_genes_apply:
  "parse_genes people one_gene two_genes n =
     (if n \<in> fst ` set people then Some (gene_count one_gene two_genes n) else None)"
  by (simp add: parse_genes_def fold_upd_map)

lemma parse_trait_apply:
  "parse_trait people have_trait n =
     (if n \<in> fst ` set people then Some (n \<in> have_trait) else None)"
  by (simp add: parse_trait_def fold_upd_map)

lemma gene_count_le: "gene_count one_gene two_genes n \<le> 2"
  by (simp add: gene_count_def)

lemma lookup_gene_PROBS: "c \<le> 2 \<Longrightarrow> lookup (gene PROBS) c = Inr (genePrior c)"
  by (auto simp: lookup_def PROBS_def genePrior_def)

lemma lookup_trait_PROBS: "c \<le> 2 \<Longrightarrow> lookup (trait PROBS) c = Inr (traitGivenGene c)"
  by (auto simp: lookup_def PROBS_def traitGivenGene_def fun_eq_iff)

lemma p_parents_PROBS: "c \<le> 2 \<Longrightarrow> p_parents PROBS c = transmits c"
  by (auto simp: p_parents_def PROBS_def transmits_def mutationRate_def)

lemma child_p_gene_inherits: "c \<le> 2 \<Longrightarrow> child_p_gene c pf pm = Some (inherits c pf pm)"
  by (auto simp: child_p_gene_def inherits_def)

lemma person_p_factor:
  assumes wf: "well_formed people" and n: "n \<in> fst ` set people"
  shows "person_p PROBS people (parse_genes people g1 g2) (parse_trait people T) n =
     Inr (individual_factor people (gene_count g1 g2) (\<lambda>x. x \<in> T) n)"
proof -
  from n obtain r where r: "(n, r) \<in> set people" by auto
  with wf have m: "map_of people n = Some r" by (simp add: well_formed_def)
  from wf r have c: "case (mother r, father r) of
           (None, None) \<Rightarrow> True
         | (Some m, Some f) \<Rightarrow> m \<in> fst ` set people \<and> f \<in> fst ` set people
         | _ \<Rightarrow> False" by (auto simp: well_formed_def)
  show ?thesis
  proof (cases "mother r")
    case None
    with c have "father r = None" by (auto split: option.splits)
    with None m n show ?thesis
      by (simp add: person_p_def individual_factor_def lookup_def [of "map_of people"]
          lookup_def [of "parse_genes people g1 g2"] lookup_def [of "parse_trait people T"]
          parse_genes_apply parse_trait_apply lookup_gene_PROBS lookup_trait_PROBS gene_count_le)
  next
    case (Some mo)
    with c obtain fa where fa: "father r = Some fa" "mo \<in> fst ` set people" "fa \<in> fst ` set people"
      by (auto split: option.splits)
    with Some m n show ?thesis
      by (simp add: person_p_def individual_factor_def lookup_def [of "map_of people"] lookup_ref_def
          lookup_def [of "parse_genes people g1 g2"] lookup_def [of "parse_trait people T"]
          parse_genes_apply parse_trait_apply lookup_trait_PROBS gene_count_le
          p_parents_PROBS child_p_gene_inherits)
  qed
qed

lemma map_err_Inr:
  "(\<And>x. x \<in> set xs \<Longrightarrow> f x = Inr (g x)) \<Longrightarrow> map_err f xs = Inr (map g xs)"
  by (induction xs) simp_all

lemma fold_mult_prod_list: "fold (\<lambda>p joint_p. joint_p * p) ps (a::rat) = a * prod_list ps"
  by (induction ps arbitrary: a) (simp_all add: mult.assoc)

lemma joint_probability_product:
  assumes "well_formed people"
  shows "joint_probability PROBS people g1 g2 T =
     Inr (prod_list (map (individual_factor people (gene_count g1 g2) (\<lambda>x. x \<in> T)) (map fst people)))"
proof -
  have "map_err (person_p PROBS people (parse_genes people g1 g2) (parse_trait people T)) (map fst people)
      = Inr (map (individual_factor people (gene_count g1 g2) (\<lambda>x. x \<in> T)) (map fst people))"
    by (rule map_err_Inr) (use assms in \<open>simp add: person_p_factor\<close>)
  then show ?thesis
    by (simp add: joint_probability_def fold_mult_prod_list)
qed

section \<open>Transmission probabilities\<close>

text \<open>
  Claim C7. The probability that a parent passes on the variant copy is exactly 1/2 when
  the parent has one copy, whatever the mutation rate, \<open>1 - mutation\<close> when it has two
  copies and \<open>mutation\<close> when it has none.
\<close>

theorem p_parents_values:
  "p_parents P 1 = 1 / 2 \<and> p_parents P 2 = 1 - mutation P \<and> p_parents P 0 = mutation P"
  by (simp add: p_parents_def field_simps)

lemma child_p_gene_without_gene:
  "child_p_gene 0 (p_parents P 0) (p_parents P 0) = Some ((1 - mutation P)\<^sup>2) \<and>
   child_p_gene 1 (p_parents P 0) (p_parents P 0) = Some (2 * mutation P * (1 - mutation P)) \<and>
   child_p_gene 2 (p_parents P 0) (p_parents P 0) = Some ((mutation P)\<^sup>2)"
  by (simp add: child_p_gene_def p_parents_def power2_eq_square)

section \<open>The joint probability is a product\<close>

text \<open>
  Claim C6. For a well-formed pedigree and any hypothesis, \<open>joint_probability\<close> returns
  the product over all individuals of the factor of each: prior times trait probability
  for an individual without parents, inherited gene probability times trait probability
  for an individual with both parents.
\<close>

theorem joint_probability_factorizes:
  assumes "well_formed people"
  shows "joint_probability PROBS people one_gene two_genes have_trait =
     Inr (prod_list (map (individual_factor people (gene_count one_gene two_genes)
                            (\<lambda>person. person \<in> have_trait))
                       (map fst people)))"
  using assms by (rule joint_probability_product)

theorem joint_probability_factorizes_witness:
  "well_formed test_people \<and>
   joint_probability PROBS test_people {''Harry''} {''James''} {''James''} =
     Inr (208150371 / 78125000000)"
proof -
  have wf: "well_formed test_people"
    by (simp add: well_formed_def test_people_def)
  from joint_probability_factorizes [OF wf, of "{''Harry''}" "{''James''}" "{''James''}"]
  show ?thesis using wf
    by (simp add: test_people_def individual_factor_def gene_count_def genePrior_def
        traitGivenGene_def transmits_def inherits_def mutationRate_def)
qed

section \<open>Overlapping gene sets\<close>

lemma gene_count_Diff: "gene_count one_gene (two_genes - one_gene) = gene_count one_gene two_genes"
  by (auto simp: gene_count_def fun_eq_iff)

lemma parse_genes_Diff:
  "parse_genes people one_gene (two_genes - one_gene) = parse_genes people one_gene two_genes"
  by (simp add: parse_genes_def gene_count_Diff)

text \<open>
  Claim C10. When \<open>one_gene\<close> and \<open>two_genes\<close> overlap, \<open>joint_probability\<close> gives a
  person of both sets one copy, its result is the one with the overlap taken out of
  \<open>two_genes\<close>, and on a well-formed pedigree it is a number, not an error.
\<close>

theorem joint_probability_overlap:
  "joint_probability P people one_gene two_genes have_trait =
     joint_probability P people one_gene (two_genes - one_gene) have_trait \<and>
   (person \<in> one_gene \<inter> two_genes \<inter> fst ` set people \<longrightarrow>
      parse_genes people one_gene two_genes person = Some 1) \<and>
   (well_formed people \<longrightarrow>
      (\<exists>p. joint_probability PROBS people one_gene two_genes have_trait = Inr p))"
proof (intro conjI impI)
  show "joint_probability P people one_gene two_genes have_trait =
     joint_probability P people one_gene (two_genes - one_gene) have_trait"
    by (simp add: joint_probability_def parse_genes_Diff)
next
  assume "person \<in> one_gene \<inter> two_genes \<inter> fst ` set people"
  then show "parse_genes people one_gene two_genes person = Some 1"
    by (simp add: parse_genes_apply gene_count_def)
next
  assume "well_formed people"
  then show "\<exists>p. joint_probability PROBS people one_gene two_genes have_trait = Inr p"
    by (simp add: joint_probability_product)
qed

theorem joint_probability_overlap_witness:
  "well_formed test_people \<and>
   ''James'' \<in> {''Harry'', ''James''} \<inter> {''James''} \<inter> fst ` set test_people \<and>
   parse_genes test_people {''Harry'', ''James''} {''James''} ''James'' = Some 1 \<and>
   joint_probability PROBS test_people {''Harry'', ''James''} {''James''} {''James''} =
     joint_probability PROBS test_people {''Harry'', ''James''} ({''James''} - {''Harry'', ''James''}) {''James''} \<and>
   joint_probability PROBS test_people {''Harry'', ''James''} {''James''} {''James''} =
     Inr (68607 / 19531250)"
proof -
  have wf: "well_formed test_people"
    by (simp add: well_formed_def test_people_def)
  have m: "''James'' \<in> {''Harry'', ''James''} \<inter> {''James''} \<inter> fst ` set test_people"
    by (simp add: test_people_def)
  have v: "joint_probability PROBS test_people {''Harry'', ''James''} {} {''James''} =
     Inr (68607 / 19531250)"
    by (simp add: joint_probability_product wf)
      (simp add: test_people_def individual_factor_def gene_count_def genePrior_def
        traitGivenGene_def transmits_def inherits_def mutationRate_def)
  from joint_probability_overlap [of PROBS test_people "{''Harry'', ''James''}" "{''James''}"
      "{''James''}" "''James''"] wf m v
  show ?thesis by simp
qed

section \<open>Accumulation\<close>

lemma balanced_init: "balanced (init_probabilities people)"
  by (auto simp: balanced_def init_probabilities_def)

lemma update_entry_sums:
  "gene2 (update_entry g1 g2 T p n e) + gene1 (update_entry g1 g2 T p n e)
     + gene0 (update_entry g1 g2 T p n e) = gene2 e + gene1 e + gene0 e + p"
  "trait_True (update_entry g1 g2 T p n e) + trait_False (update_entry g1 g2 T p n e)
     = trait_True e + trait_False e + p"
  by (simp_all add: update_entry_def Let_def)

lemma balanced_update: "balanced probabilities \<Longrightarrow> balanced (update probabilities g1 g2 T p)"
  by (auto simp: balanced_def update_def update_entry_sums)

lemma balanced_fold:
  "balanced probabilities \<Longrightarrow>
   balanced (fold (\<lambda>(one_gene, two_genes, have_trait, p) probabilities.
                     update probabilities one_gene two_genes have_trait p) calls probabilities)"
  by (induction calls arbitrary: probabilities) (auto simp: balanced_update)

text \<open>
  Claim C2. Starting from the all-zero table, after any sequence of calls of \<open>update\<close>
  the gene buckets and the trait buckets of every person have the same sum.
\<close>

theorem update_keeps_sums_equal:
  "balanced (fold (\<lambda>(one_gene, two_genes, have_trait, p) probabilities.
                     update probabilities one_gene two_genes have_trait p)
               calls (init_probabilities people))"
  by (rule balanced_fold) (rule balanced_init)

theorem update_keeps_sums_equal_witness:
  "fold (\<lambda>(one_gene, two_genes, have_trait, p) probabilities.
           update probabilities one_gene two_genes have_trait p)
     [({''Harry''}, {''James''}, {''James''}, 1 / 4), ({}, {''Lily''}, {''Harry''}, 1 / 2)]
     (init_probabilities test_people) =
   [(''Harry'', \<lparr>gene2 = 0, gene1 = 1 / 4, gene0 = 1 / 2, trait_True = 1 / 2, trait_False = 1 / 4\<rparr>),
    (''James'', \<lparr>gene2 = 1 / 4, gene1 = 0, gene0 = 1 / 2, trait_True = 1 / 4, trait_False = 1 / 2\<rparr>),
    (''Lily'', \<lparr>gene2 = 1 / 2, gene1 = 0, gene0 = 1 / 4, trait_True = 0, trait_False = 3 / 4\<rparr>)] \<and>
   balanced
     [(''Harry'', \<lparr>gene2 = 0, gene1 = 1 / 4, gene0 = 1 / 2, trait_True = 1 / 2, trait_False = 1 / 4\<rparr>),
      (''James'', \<lparr>gene2 = 1 / 4, gene1 = 0, gene0 = 1 / 2, trait_True = 1 / 4, trait_False = 1 / 2\<rparr>),
      (''Lily'', \<lparr>gene2 = 1 / 2, gene1 = 0, gene0 = 1 / 4, trait_True = 0, trait_False = 3 / 4\<rparr>)]"
  using update_keeps_sums_equal
    [of "[({''Harry''}, {''James''}, {''James''}, 1 / 4), ({}, {''Lily''}, {''Harry''}, 1 / 2)]"
      test_people]
  by (simp add: init_probabilities_def test_people_def update_def update_entry_def)

section \<open>Normalization\<close>

text \<open>
  Claim C1 says that \<open>normalize\<close> divides each distribution by its own total and decides
  the zero-total exception for each distribution by its own sum. The program divides the
  trait distribution by the total of the gene distribution, and a zero gene total skips
  the trait distribution of that person. On the first table below the trait
  distribution, of total 1, is divided by the gene total 2 and sums to 1/2. On the
  second, of gene total 0, the trait distribution of total 4 is left as it is.
\<close>

theorem normalize_trait_by_gene_sum:
  "normalize [(''A'', \<lparr>gene2 = 0, gene1 = 1, gene0 = 1, trait_True = 1, trait_False = 0\<rparr>)]
     = [(''A'', \<lparr>gene2 = 0, gene1 = 1 / 2, gene0 = 1 / 2, trait_True = 1 / 2, trait_False = 0\<rparr>)] \<and>
   normalize [(''A'', \<lparr>gene2 = 0, gene1 = 0, gene0 = 0, trait_True = 1, trait_False = 3\<rparr>)]
     = [(''A'', \<lparr>gene2 = 0, gene1 = 0, gene0 = 0, trait_True = 1, trait_False = 3\<rparr>)]"
  by (simp add: normalize_def normalize_entry_def Let_def)

section \<open>The subsets that powerset lists\<close>

lemma set_combinations:
  "set (combinations xs r) = {ys \<in> set (subseqs xs). length ys = r}"
proof (induction xs r rule: combinations.induct)
  case (1 xs)
  have "[] \<in> set (subseqs xs)" by (induction xs) (auto simp: Let_def)
  then show ?case by auto
next
  case (2 r)
  then show ?case by auto
next
  case (3 x xs r)
  then show ?case by (auto simp: Let_def)
qed

lemma combinations_subset: "ys \<in> set (combinations xs r) \<Longrightarrow> set ys \<subseteq> set xs"
  using subseqs_powset [of xs] by (auto simp: set_combinations)

lemma combinations_card:
  "distinct xs \<Longrightarrow> ys \<in> set (combinations xs r) \<Longrightarrow> card (set ys) = r"
  using subseqs_distinctD [of ys xs] by (auto simp: set_combinations distinct_card)

lemma distinct_combinations:
  "distinct xs \<Longrightarrow> distinct (map set (combinations xs r))"
proof (induction xs r rule: combinations.induct)
  case (3 x xs r)
  have inj: "inj_on ((#) x) (set (combinations xs r))" by (simp add: inj_on_def)
  have "inj_on (insert x) (set ` set (combinations xs r))"
    using 3 by (auto simp: inj_on_def dest!: combinations_subset) 
  with 3 have "distinct (map (insert x) (map set (combinations xs r)))"
    by (simp add: distinct_map del: map_map)
  moreover have "map (insert x) (map set (combinations xs r)) = map set (map ((#) x) (combinations xs r))"
    by simp
  ultimately have d1: "distinct (map set (map ((#) x) (combinations xs r)))" by metis
  have "set ` (#) x ` set (combinations xs r) \<inter> set ` set (combinations xs (Suc r)) = {}"
    using 3 by (auto dest!: combinations_subset)
  with d1 3 show ?case by (simp add: image_image)
qed simp_all

lemma distinct_concat_upt:
  assumes "\<And>r. r < k \<Longrightarrow> distinct (f r)"
    and "\<And>r s. r < s \<Longrightarrow> s < k \<Longrightarrow> set (f r) \<inter> set (f s) = {}"
  shows "distinct (concat (map f [0..<k]))"
  using assms
proof (induction k)
  case (Suc k)
  then show ?case by (fastforce simp: less_Suc_eq)
qed simp

lemma distinct_powerset: "distinct xs \<Longrightarrow> distinct (powerset xs)"
proof -
  assume d: "distinct xs"
  have "distinct (concat (map (\<lambda>r. map set (combinations xs r)) [0..<length xs + 1]))"
  proof (rule distinct_concat_upt)
    fix r show "distinct (map set (combinations xs r))" by (rule distinct_combinations [OF d])
  next
    fix r s :: nat assume rs: "r < s"
    have "S \<notin> set ` set (combinations xs s)" if "S \<in> set ` set (combinations xs r)" for S
    proof
      assume "S \<in> set ` set (combinations xs s)"
      with that obtain ys zs where "ys \<in> set (combinations xs r)" "S = set ys"
        "zs \<in> set (combinations xs s)" "S = set zs" by auto
      then have "r = s" using combinations_card [OF d] by metis
      with rs show False by simp
    qed
    then show "set (map set (combinations xs r)) \<inter> set (map set (combinations xs s)) = {}"
      by auto
  qed
  then show ?thesis by (simp add: powerset_def map_concat comp_def)
qed

lemma length_subseqs_le: "ys \<in> set (subseqs xs) \<Longrightarrow> length ys \<le> length xs"
proof (induction xs arbitrary: ys)
  case (Cons x xs)
  then show ?case by (fastforce simp: Let_def)
qed simp

lemma set_powerset: "set (powerset xs) = Pow (set xs)"
proof -
  have u: "(\<Union>r\<in>{0..<Suc (length xs)}. {ys \<in> set (subseqs xs). length ys = r}) = set (subseqs xs)"
    using length_subseqs_le [of _ xs] by (auto simp: less_Suc_eq_le)
  have "set (powerset xs) = set ` (\<Union>r\<in>{0..<Suc (length xs)}. set (combinations xs r))"
    by (simp add: powerset_def image_UN del: upt_Suc)
  also have "\<dots> = set ` set (subseqs xs)"
    by (simp only: set_combinations u)
  finally show ?thesis by (simp add: subseqs_powset)
qed

lemma sum_list_powerset:
  fixes f :: "'a set \<Rightarrow> rat"
  shows "distinct xs \<Longrightarrow> sum_list (map f (powerset xs)) = sum f (Pow (set xs))"
  using sum_list_distinct_conv_sum_set [OF distinct_powerset, of xs f] by (simp add: set_powerset)

section \<open>The hypotheses that main enumerates\<close>

lemma fold_err_append:
  "fold_err f (xs @ ys) s = bind_err (fold_err f xs s) (fold_err f ys)"
  by (induction xs arbitrary: s) (simp_all split: sum.splits)

lemma fold_err_concat_map_s:
  "fold_err f (concat (map g xs)) s = fold_err (\<lambda>x. fold_err f (g x)) xs s"
  by (induction xs arbitrary: s) (simp_all add: fold_err_append split: sum.splits)

lemma fold_err_concat_map:
  "fold_err f (concat (map g xs)) = fold_err (\<lambda>x. fold_err f (g x)) xs"
  by (rule ext) (rule fold_err_concat_map_s)

lemma fold_err_map_s: "fold_err f (map h xs) s = fold_err (\<lambda>x. f (h x)) xs s"
  by (induction xs arbitrary: s) (simp_all split: sum.splits)

lemma fold_err_map: "fold_err f (map h xs) = fold_err (\<lambda>x. f (h x)) xs"
  by (rule ext) (rule fold_err_map_s)

lemma fold_err_filter_s:
  "fold_err f (filter Q xs) s = fold_err (\<lambda>x s. if Q x then f x s else Inr s) xs s"
  by (induction xs arbitrary: s) (simp_all split: sum.splits)

lemma fold_err_filter:
  "fold_err f (filter Q xs) = fold_err (\<lambda>x s. if Q x then f x s else Inr s) xs"
  by (rule ext) (rule fold_err_filter_s)

lemma accumulate_apply:
  "accumulate people (one_gene, two_genes, have_trait) =
     (\<lambda>probabilities.
        bind_err (joint_probability PROBS people one_gene two_genes have_trait) (\<lambda>p.
          Inr (update probabilities one_gene two_genes have_trait p)))"
  by (rule ext) (simp add: accumulate_def)

lemma if_not_swap: "(if \<not> Q then a else b) = (if Q then b else a)"
  by simp

lemma main_loop_hypotheses:
  "main_loop as_list people =
     fold_err (accumulate people) (hypotheses as_list people) (init_probabilities people)"
proof -
  have "fold_err (accumulate people) (hypotheses as_list people) s =
      fold_err (\<lambda>have_trait probabilities.
          if fails_evidence people (set (map fst people)) have_trait then Inr probabilities
          else
            fold_err (\<lambda>one_gene probabilities.
                fold_err (\<lambda>two_genes probabilities.
                    bind_err (joint_probability PROBS people one_gene two_genes have_trait) (\<lambda>p.
                      Inr (update probabilities one_gene two_genes have_trait p)))
                  (powerset (as_list (set (map fst people) - one_gene))) probabilities)
              (powerset (as_list (set (map fst people)))) probabilities)
        (powerset (as_list (set (map fst people)))) s" for s
    unfolding hypotheses_def trait_sets_def gene_sets_def Let_def
    by (simp add: fold_err_concat_map fold_err_map fold_err_filter accumulate_apply if_not_swap
        del: set_map)
  then show ?thesis by (simp add: main_loop_def Let_def del: set_map)
qed

lemma fails_evidence_agrees:
  assumes "distinct (map fst people)"
  shows "fails_evidence people (fst ` set people) T \<longleftrightarrow> \<not> agrees people T"
proof -
  have m: "map_of people n = Some r \<longleftrightarrow> (n, r) \<in> set people" for n r
    using assms by simp
  have e: "(trait_obs r \<noteq> None \<and> trait_obs r \<noteq> Some (n \<in> T)) \<longleftrightarrow>
      \<not> (case trait_obs r of None \<Rightarrow> True | Some b \<Rightarrow> (n \<in> T) = b)" for n and r :: person
    by (cases "trait_obs r") auto
  have "fails_evidence people (fst ` set people) T \<longleftrightarrow>
      (\<exists>(n, r) \<in> set people. trait_obs r \<noteq> None \<and> trait_obs r \<noteq> Some (n \<in> T))"
  proof
    assume "fails_evidence people (fst ` set people) T"
    then obtain n r where "map_of people n = Some r"
      "trait_obs r \<noteq> None \<and> trait_obs r \<noteq> Some (n \<in> T)"
      unfolding fails_evidence_def by (auto split: option.splits)
    then show "\<exists>(n, r) \<in> set people. trait_obs r \<noteq> None \<and> trait_obs r \<noteq> Some (n \<in> T)"
      using m by blast
  next
    assume "\<exists>(n, r) \<in> set people. trait_obs r \<noteq> None \<and> trait_obs r \<noteq> Some (n \<in> T)"
    then obtain n r where nr: "(n, r) \<in> set people"
      "trait_obs r \<noteq> None \<and> trait_obs r \<noteq> Some (n \<in> T)" by blast
    then have "map_of people n = Some r" "n \<in> fst ` set people" using m by force+
    with nr(2) show "fails_evidence people (fst ` set people) T"
      unfolding fails_evidence_def by (intro bexI [of _ n]) simp_all
  qed
  also have "\<dots> \<longleftrightarrow> \<not> agrees people T"
    unfolding agrees_def using e by blast
  finally show ?thesis .
qed

lemma set_trait_sets:
  assumes "distinct (map fst people)" and "lists_sets as_list (fst ` set people)"
  shows "set (trait_sets as_list people) = {T \<in> Pow (fst ` set people). agrees people T}"
proof -
  from assms(2) have "set (as_list (fst ` set people)) = fst ` set people"
    by (simp add: lists_sets_def)
  then show ?thesis
    by (auto simp: trait_sets_def set_powerset fails_evidence_agrees [OF assms(1)])
qed

lemma set_hypotheses:
  "set (hypotheses as_list people) =
     {(g1, g2, T). (g1, g2) \<in> set (gene_sets as_list people) \<and> T \<in> set (trait_sets as_list people)}"
  by (auto simp: hypotheses_def)

lemma empty_gene_sets: "({}, {}) \<in> set (gene_sets as_list people)"
  by (auto simp: gene_sets_def set_powerset)

lemma trait_sets_of_hypotheses:
  "(snd \<circ> snd) ` set (hypotheses as_list people) = set (trait_sets as_list people)"
  using empty_gene_sets [of as_list people] by (force simp: set_hypotheses)

section \<open>Evidence filtering\<close>

lemma lists_sets_in_order_of: "distinct xs \<Longrightarrow> lists_sets (in_order_of xs) (set xs)"
  by (auto simp: lists_sets_def in_order_of_def)

text \<open>
  Claim C9. The trait sets of the hypotheses that \<open>main\<close> enumerates are exactly the
  sets of individuals that agree with all observed traits: each observed-true individual
  is in the set, each observed-false individual is not, the others are free. So an
  individual observed with the trait has it in every enumerated hypothesis.
\<close>

theorem evidence_filtering:
  assumes "distinct (map fst people)" and "lists_sets as_list (fst ` set people)"
  shows "main_loop as_list people =
           fold_err (accumulate people) (hypotheses as_list people) (init_probabilities people) \<and>
         (snd \<circ> snd) ` set (hypotheses as_list people) =
           {T \<in> Pow (fst ` set people). agrees people T} \<and>
         (\<forall>(n, r) \<in> set people. trait_obs r = Some True \<longrightarrow>
            (\<forall>(one_gene, two_genes, have_trait) \<in> set (hypotheses as_list people).
               n \<in> have_trait))"
proof (intro conjI)
  show "main_loop as_list people =
      fold_err (accumulate people) (hypotheses as_list people) (init_probabilities people)"
    by (rule main_loop_hypotheses)
  show t: "(snd \<circ> snd) ` set (hypotheses as_list people) =
      {T \<in> Pow (fst ` set people). agrees people T}"
    by (simp only: trait_sets_of_hypotheses set_trait_sets [OF assms])
  show "\<forall>(n, r) \<in> set people. trait_obs r = Some True \<longrightarrow>
      (\<forall>(one_gene, two_genes, have_trait) \<in> set (hypotheses as_list people). n \<in> have_trait)"
  proof (clarify)
    fix n r g1 g2 T
    assume nr: "(n, r) \<in> set people" "trait_obs r = Some True"
      and h: "(g1, g2, T) \<in> set (hypotheses as_list people)"
    from h have "(snd \<circ> snd) (g1, g2, T) \<in> (snd \<circ> snd) ` set (hypotheses as_list people)"
      by (rule imageI)
    with t have "agrees people T" by simp
    with nr show "n \<in> T" by (force simp: agrees_def)
  qed
qed

theorem evidence_filtering_witness:
  "distinct (map fst test_people) \<and>
   lists_sets (in_order_of [''Harry'', ''James'', ''Lily'']) (fst ` set test_people) \<and>
   (''James'', \<lparr>name = ''James'', mother = None, father = None, trait_obs = Some True\<rparr>)
     \<in> set test_people \<and>
   trait_sets (in_order_of [''Harry'', ''James'', ''Lily'']) test_people =
     [{''James''}, {''Harry'', ''James''}] \<and>
   {T \<in> Pow (fst ` set test_people). agrees test_people T} =
     {{''James''}, {''Harry'', ''James''}} \<and>
   (snd \<circ> snd) ` set (hypotheses (in_order_of [''Harry'', ''James'', ''Lily'']) test_people) =
     {{''James''}, {''Harry'', ''James''}}"
proof -
  have d: "distinct (map fst test_people)" by (simp add: test_people_def)
  have "lists_sets (in_order_of [''Harry'', ''James'', ''Lily'']) (set [''Harry'', ''James'', ''Lily''])"
    by (rule lists_sets_in_order_of) simp
  then have l: "lists_sets (in_order_of [''Harry'', ''James'', ''Lily'']) (fst ` set test_people)"
    by (simp add: test_people_def)
  have j: "(''James'', \<lparr>name = ''James'', mother = None, father = None, trait_obs = Some True\<rparr>)
     \<in> set test_people" by (simp add: test_people_def)
  have t: "trait_sets (in_order_of [''Harry'', ''James'', ''Lily'']) test_people =
     [{''James''}, {''Harry'', ''James''}]"
    by (simp add: trait_sets_def in_order_of_def test_people_def powerset_def fails_evidence_def
        upt_rec numeral_eq_Suc insert_commute)
  have a: "{T \<in> Pow (fst ` set test_people). agrees test_people T} =
     {{''James''}, {''Harry'', ''James''}}"
    unfolding set_trait_sets [OF d l, symmetric] t by simp
  from evidence_filtering [OF d l] have
    "(snd \<circ> snd) ` set (hypotheses (in_order_of [''Harry'', ''James'', ''Lily'']) test_people) =
     {T \<in> Pow (fst ` set test_people). agrees test_people T}" by blast
  with a d l j t show ?thesis by simp
qed

section \<open>A single individual\<close>

lemma lists_sets_singleton:
  assumes "lists_sets as_list {n}"
  shows "as_list {n} = [n]" and "as_list {} = []"
proof -
  from assms have "set (as_list {n}) = {n}" "distinct (as_list {n})"
    by (simp_all add: lists_sets_def)
  then show "as_list {n} = [n]"
    by (cases "as_list {n}") (auto simp: subset_singleton_iff split: if_splits)
  from assms have "set (as_list {}) = {}" by (simp add: lists_sets_def)
  then show "as_list {} = []" by simp
qed

lemma powerset_Nil: "powerset [] = [{}]"
  by (simp add: powerset_def)

lemma powerset_single: "powerset [n] = [{}, {n}]"
  by (simp add: powerset_def upt_rec)

text \<open>
  Claim C5. For a pedigree of one individual without recorded parents and without an
  observed trait, the table that \<open>main\<close> reports holds the unconditional prior as gene
  distribution: 0.01 for two copies, 0.03 for one copy, 0.96 for none.
\<close>

theorem single_individual_prior:
  assumes o: "lists_sets as_list {row_name r}"
    and r: "row_mother r = ''''" "row_father r = ''''" "row_trait r \<noteq> ''1''" "row_trait r \<noteq> ''0''"
  shows "main as_list [r] =
     Inr [(row_name r,
           \<lparr>gene2 = 0.01, gene1 = 0.03, gene0 = 0.96, trait_True = 0.0329, trait_False = 0.9671\<rparr>)]"
proof -
  let ?n = "row_name r"
  let ?people = "[(?n, person_of_row r)]"
  have p: "load_data [r] = ?people" by (simp add: load_data_def)
  have wf: "well_formed ?people"
    using r by (simp add: well_formed_def person_of_row_def or_None_def)
  have f: "\<not> fails_evidence ?people {?n} T" for T
    using r by (simp add: fails_evidence_def person_of_row_def)
  have jp: "joint_probability PROBS ?people g1 g2 T =
      Inr (genePrior (gene_count g1 g2 ?n) * traitGivenGene (gene_count g1 g2 ?n) (?n \<in> T))"
    for g1 g2 T
    unfolding joint_probability_product [OF wf]
    using r by (simp add: individual_factor_def person_of_row_def or_None_def)
  have "main_loop as_list ?people =
      Inr [(?n, \<lparr>gene2 = 0.01, gene1 = 0.03, gene0 = 0.96,
                 trait_True = 0.0329, trait_False = 0.9671\<rparr>)]"
    by (simp add: main_loop_def lists_sets_singleton [OF o] powerset_Nil powerset_single f jp
        init_probabilities_def update_def update_entry_def gene_count_def genePrior_def
        traitGivenGene_def)
  then show ?thesis
    by (simp add: main_def p normalize_def normalize_entry_def)
qed

theorem single_individual_prior_witness:
  "lists_sets (in_order_of [''A'']) {''A''} \<and>
   main (in_order_of [''A''])
     [\<lparr>row_name = ''A'', row_mother = [], row_father = [], row_trait = []\<rparr>] =
   Inr [(''A'', \<lparr>gene2 = 0.01, gene1 = 0.03, gene0 = 0.96,
                  trait_True = 0.0329, trait_False = 0.9671\<rparr>)]"
proof -
  have l: "lists_sets (in_order_of [''A'']) {''A''}"
    using lists_sets_in_order_of [of "[''A'']"] by simp
  from single_individual_prior
    [of "in_order_of [''A'']"
      "\<lparr>row_name = ''A'', row_mother = [], row_father = [], row_trait = []\<rparr>"] l
  show ?thesis by simp
qed

section \<open>Errors of joint_probability and of main\<close>

lemma map_err_Inl:
  assumes "x \<in> set xs" and "f x = Inl e"
    and "\<And>y e'. y \<in> set xs \<Longrightarrow> f y = Inl e' \<Longrightarrow> e' = e"
  shows "map_err f xs = Inl e"
  using assms
proof (induction xs)
  case (Cons a xs)
  show ?case
  proof (cases "f a")
    case (Inl e')
    from Cons.prems(3) [of a e'] Inl have "e' = e" by simp
    with Inl show ?thesis by simp
  next
    case (Inr y)
    with Cons.prems(1,2) have "x \<in> set xs" by auto
    moreover have "e' = e" if "y \<in> set xs" "f y = Inl e'" for y e'
      using Cons.prems(3) [of y e'] that by simp
    ultimately have "map_err f xs = Inl e"
      using Cons.prems(2) by (intro Cons.IH)
    with Inr show ?thesis by simp
  qed
qed simp

lemma lookup_parse_genes:
  "n \<in> fst ` set people \<Longrightarrow>
   lookup (parse_genes people g1 g2) n = Inr (gene_count g1 g2 n)"
  by (simp add: lookup_def parse_genes_apply)

lemma lookup_parse_trait:
  "n \<in> fst ` set people \<Longrightarrow> lookup (parse_trait people T) n = Inr (n \<in> T)"
  by (simp add: lookup_def parse_trait_apply)

lemma lookup_ref_parse_genes:
  "lookup_ref (parse_genes people g1 g2) k =
     (case k of None \<Rightarrow> Inl KeyError
      | Some n \<Rightarrow> if n \<in> fst ` set people then Inr (gene_count g1 g2 n) else Inl KeyError)"
  by (simp add: lookup_ref_def lookup_def parse_genes_apply split: option.splits)

lemma person_p_cases:
  assumes n: "n \<in> fst ` set people" and m: "map_of people n = Some r"
  shows "person_p PROBS people (parse_genes people g1 g2) (parse_trait people T) n =
     (if mother r = None \<and> father r = None then
        Inr (genePrior (gene_count g1 g2 n) * traitGivenGene (gene_count g1 g2 n) (n \<in> T))
      else
        (case father r of
           None \<Rightarrow> Inl KeyError
         | Some f \<Rightarrow>
             if f \<notin> fst ` set people then Inl KeyError
             else
               (case mother r of
                  None \<Rightarrow> Inl KeyError
                | Some mo \<Rightarrow>
                    if mo \<notin> fst ` set people then Inl KeyError
                    else Inr (inherits (gene_count g1 g2 n) (transmits (gene_count g1 g2 f))
                                (transmits (gene_count g1 g2 mo))
                              * traitGivenGene (gene_count g1 g2 n) (n \<in> T)))))"
proof -
  have r: "lookup (map_of people) n = Inr r" by (simp add: lookup_def m)
  note basics = person_p_def r lookup_parse_genes [OF n] lookup_parse_trait [OF n]
    lookup_ref_parse_genes lookup_gene_PROBS lookup_trait_PROBS gene_count_le p_parents_PROBS
    child_p_gene_inherits
  show ?thesis
  proof (cases "mother r = None \<and> father r = None")
    case True
    then show ?thesis by (simp add: basics)
  next
    case False
    show ?thesis
    proof (cases "father r")
      case None
      with False show ?thesis by (simp add: basics)
    next
      case f: (Some f)
      show ?thesis
      proof (cases "mother r")
        case None
        with f show ?thesis by (simp add: basics)
      next
        case (Some mo)
        with f show ?thesis by (simp add: basics)
      qed
    qed
  qed
qed

lemma person_p_error:
  assumes "n \<in> fst ` set people"
    and "person_p PROBS people (parse_genes people g1 g2) (parse_trait people T) n = Inl e"
  shows "e = KeyError"
proof -
  from assms(1) obtain r where "map_of people n = Some r"
    by (cases "map_of people n") (auto simp: map_of_eq_None_iff)
  from assms(2) [unfolded person_p_cases [OF assms(1) this]] show ?thesis
    by (simp split: if_splits option.splits)
qed

lemma person_p_unresolved:
  assumes d: "distinct (map fst people)" and nr: "(n, r) \<in> set people"
    and u: "unresolved_parents people r"
  shows "person_p PROBS people (parse_genes people g1 g2) (parse_trait people T) n = Inl KeyError"
proof -
  from d nr have m: "map_of people n = Some r" by simp
  from nr have n: "n \<in> fst ` set people" by force
  from u show ?thesis
    unfolding person_p_cases [OF n m]
    by (auto simp: unresolved_parents_def split: option.splits)
qed

lemma joint_probability_unresolved:
  assumes d: "distinct (map fst people)" and nr: "(n, r) \<in> set people"
    and u: "unresolved_parents people r"
  shows "joint_probability PROBS people g1 g2 T = Inl KeyError"
proof -
  have "map_err (person_p PROBS people (parse_genes people g1 g2) (parse_trait people T))
      (map fst people) = Inl KeyError"
  proof (rule map_err_Inl [of n])
    from nr show "n \<in> set (map fst people)" by force
    show "person_p PROBS people (parse_genes people g1 g2) (parse_trait people T) n = Inl KeyError"
      by (rule person_p_unresolved [OF d nr u])
  next
    fix y e'
    assume "y \<in> set (map fst people)"
      "person_p PROBS people (parse_genes people g1 g2) (parse_trait people T) y = Inl e'"
    then show "e' = KeyError" using person_p_error [of y people g1 g2 T e'] by simp
  qed
  then show ?thesis by (simp add: joint_probability_def)
qed

lemma well_formed_iff:
  "well_formed people \<longleftrightarrow>
     distinct (map fst people) \<and> (\<forall>(n, r) \<in> set people. \<not> unresolved_parents people r)"
proof -
  have "(case (mother r, father r) of
           (None, None) \<Rightarrow> True
         | (Some m, Some f) \<Rightarrow> m \<in> fst ` set people \<and> f \<in> fst ` set people
         | _ \<Rightarrow> False) \<longleftrightarrow> \<not> unresolved_parents people r" for r
    by (simp add: unresolved_parents_def split: option.splits)
  then show ?thesis by (simp add: well_formed_def)
qed

lemma trait_sets_nonempty:
  assumes d: "distinct (map fst people)" and l: "lists_sets as_list (fst ` set people)"
  shows "trait_sets as_list people \<noteq> []"
proof -
  define T where "T = {n. \<exists>r. (n, r) \<in> set people \<and> trait_obs r = Some True}"
  have "agrees people T"
    unfolding agrees_def
  proof (clarify)
    fix n r assume nr: "(n, r) \<in> set people"
    show "case trait_obs r of None \<Rightarrow> True | Some b \<Rightarrow> (n \<in> T) = b"
    proof (cases "trait_obs r")
      case (Some b)
      have u: "r' = r" if "(n, r') \<in> set people" for r'
        using eq_key_imp_eq_value [OF d that nr] .
      have "n \<in> T \<longleftrightarrow> b"
      proof
        assume "n \<in> T"
        then obtain r' where "(n, r') \<in> set people" "trait_obs r' = Some True"
          unfolding T_def by blast
        with u [of r'] Some show b by simp
      next
        assume b
        with Some nr show "n \<in> T" unfolding T_def by auto
      qed
      with Some show ?thesis by simp
    qed simp
  qed
  moreover have "n \<in> fst ` set people" if "n \<in> T" for n
  proof -
    from that obtain r where "(n, r) \<in> set people" unfolding T_def by blast
    then show ?thesis by (rule image_eqI [rotated]) simp
  qed
  then have "T \<in> Pow (fst ` set people)" by blast
  ultimately have "T \<in> set (trait_sets as_list people)"
    unfolding set_trait_sets [OF d l] by simp
  then show ?thesis by (cases "trait_sets as_list people") simp_all
qed

lemma hypotheses_nonempty:
  assumes "distinct (map fst people)" and "lists_sets as_list (fst ` set people)"
  shows "hypotheses as_list people \<noteq> []"
proof -
  from trait_sets_nonempty [OF assms] obtain T where "T \<in> set (trait_sets as_list people)"
    by (cases "trait_sets as_list people") auto
  with empty_gene_sets [of as_list people]
  have "({}, {}, T) \<in> set (hypotheses as_list people)" by (simp add: set_hypotheses)
  then show ?thesis by auto
qed

lemma fold_err_first_error:
  "xs \<noteq> [] \<Longrightarrow> (\<And>x s. x \<in> set xs \<Longrightarrow> f x s = Inl e) \<Longrightarrow> fold_err f xs s = Inl e"
  by (cases xs) simp_all

lemma fold_err_no_error:
  "(\<And>x s. x \<in> set xs \<Longrightarrow> f x s = Inr (g x s)) \<Longrightarrow> fold_err f xs s = Inr (fold g xs s)"
  by (induction xs arbitrary: s) simp_all

lemma main_loop_unresolved:
  assumes d: "distinct (map fst people)" and l: "lists_sets as_list (fst ` set people)"
    and nr: "(n, r) \<in> set people" and u: "unresolved_parents people r"
  shows "main_loop as_list people = Inl KeyError"
  unfolding main_loop_hypotheses
  by (rule fold_err_first_error [OF hypotheses_nonempty [OF d l]])
    (auto simp: accumulate_def joint_probability_unresolved [OF d nr u])

lemma main_loop_well_formed:
  assumes "well_formed people"
  shows "main_loop as_list people =
     Inr (fold (\<lambda>(g1, g2, T) probabilities.
                  update probabilities g1 g2 T
                    (prod_list (map (individual_factor people (gene_count g1 g2) (\<lambda>x. x \<in> T))
                       (map fst people))))
            (hypotheses as_list people) (init_probabilities people))"
  unfolding main_loop_hypotheses
  by (rule fold_err_no_error) (auto simp: accumulate_def joint_probability_product [OF assms])

lemma distinct_load_data_fold:
  "distinct (map fst data) \<Longrightarrow>
   distinct (map fst (fold (\<lambda>r data. AList.update (row_name r) (person_of_row r) data) rows data))"
  by (induction rows arbitrary: data) (simp_all add: distinct_update)

lemma distinct_load_data: "distinct (map fst (load_data rows))"
  by (simp add: load_data_def distinct_load_data_fold)

lemma load_data_last:
  "map_of (load_data (rows @ [r])) (row_name r) = Some (person_of_row r)"
  by (simp add: load_data_def update_conv')

section \<open>Pedigrees that are not valid\<close>

text \<open>
  Claim C3 says that an invalid pedigree is detected and reported before the enumeration
  starts. The program has no such check. Two rows with the same name are not detected:
  \<open>load_data\<close> keeps the second row, and \<open>main\<close> reports a table for it.
\<close>

theorem duplicate_identity_not_detected:
  "main (in_order_of [''A''])
     [\<lparr>row_name = ''A'', row_mother = [], row_father = [], row_trait = ''1''\<rparr>,
      \<lparr>row_name = ''A'', row_mother = [], row_father = [], row_trait = ''0''\<rparr>] =
   Inr [(''A'', \<lparr>gene2 = 35 / 9671, gene1 = 132 / 9671, gene0 = 9504 / 9671,
                  trait_True = 0, trait_False = 1\<rparr>)]"
proof -
  let ?people = "[(''A'', \<lparr>name = ''A'', mother = None, father = None, trait_obs = Some False\<rparr>)]"
  have p: "load_data
     [\<lparr>row_name = ''A'', row_mother = [], row_father = [], row_trait = ''1''\<rparr>,
      \<lparr>row_name = ''A'', row_mother = [], row_father = [], row_trait = ''0''\<rparr>] = ?people"
    by (simp add: load_data_def person_of_row_def or_None_def)
  have wf: "well_formed ?people" by (simp add: well_formed_def)
  have jp: "joint_probability PROBS ?people g1 g2 T =
      Inr (genePrior (gene_count g1 g2 ''A'') * traitGivenGene (gene_count g1 g2 ''A'') (''A'' \<in> T))"
    for g1 g2 T
    unfolding joint_probability_product [OF wf] by (simp add: individual_factor_def)
  have "main_loop (in_order_of [''A'']) ?people =
      Inr [(''A'', \<lparr>gene2 = 0.0035, gene1 = 0.0132, gene0 = 0.9504,
                     trait_True = 0, trait_False = 0.9671\<rparr>)]"
    by (simp add: main_loop_def in_order_of_def powerset_Nil powerset_single fails_evidence_def jp
        init_probabilities_def update_def update_entry_def gene_count_def genePrior_def
        traitGivenGene_def)
  then show ?thesis
    by (simp add: main_def p normalize_def normalize_entry_def)
qed

lemma map_of_load_data_fold:
  "map_of (fold (\<lambda>r data. AList.update (row_name r) (person_of_row r) data) rows data) n =
     (case find (\<lambda>r. row_name r = n) (rev rows) of
        None \<Rightarrow> map_of data n
      | Some r \<Rightarrow> Some (person_of_row r))"
proof (induction rows rule: rev_induct)
  case (snoc r rows)
  then show ?case by (simp add: update_conv')
qed simp

lemma map_of_load_data:
  "map_of (load_data rows) n = map_option person_of_row (find (\<lambda>r. row_name r = n) (rev rows))"
  by (simp add: load_data_def map_of_load_data_fold split: option.splits)


text \<open>
  Claim C3, amended. \<open>load_data\<close> accepts every list of rows: its result has distinct
  names, and the record of a name is that of the last row with this name. When an
  individual of the loaded pedigree has only one parent recorded, or a recorded parent
  who is no individual of the pedigree, this shows during the enumeration and not before
  it: there are hypotheses to evaluate, every call of \<open>joint_probability\<close> raises
  \<open>KeyError\<close>, and so does \<open>main\<close>, without a table. When no individual of the loaded
  pedigree has such parents, duplicate rows or not, \<open>main\<close> runs the inference on it and
  returns the normalized table.
\<close>

theorem no_pedigree_validation:
  "distinct (map fst (load_data rows)) \<and>
   map_of (load_data rows) k =
     map_option person_of_row (find (\<lambda>r. row_name r = k) (rev rows)) \<and>
   map_of (load_data (rows @ [r])) (row_name r) = Some (person_of_row r) \<and>
   (lists_sets as_list (fst ` set (load_data rows)) \<and> (n, p) \<in> set (load_data rows) \<and>
    unresolved_parents (load_data rows) p \<longrightarrow>
      hypotheses as_list (load_data rows) \<noteq> [] \<and>
      (\<forall>one_gene two_genes have_trait.
         joint_probability PROBS (load_data rows) one_gene two_genes have_trait = Inl KeyError) \<and>
      main as_list rows = Inl KeyError) \<and>
   ((\<forall>(n, p) \<in> set (load_data rows). \<not> unresolved_parents (load_data rows) p) \<longrightarrow>
      main as_list rows =
        Inr (normalize
          (fold (\<lambda>(one_gene, two_genes, have_trait) probabilities.
                   update probabilities one_gene two_genes have_trait
                     (prod_list (map (individual_factor (load_data rows)
                                        (gene_count one_gene two_genes)
                                        (\<lambda>person. person \<in> have_trait))
                                   (map fst (load_data rows)))))
             (hypotheses as_list (load_data rows)) (init_probabilities (load_data rows)))))"
proof (intro conjI impI allI)
  show d: "distinct (map fst (load_data rows))" by (rule distinct_load_data)
  show "map_of (load_data rows) k =
      map_option person_of_row (find (\<lambda>r. row_name r = k) (rev rows))"
    by (rule map_of_load_data)
  show "map_of (load_data (rows @ [r])) (row_name r) = Some (person_of_row r)"
    by (rule load_data_last)
  {
    assume a: "lists_sets as_list (fst ` set (load_data rows)) \<and> (n, p) \<in> set (load_data rows) \<and>
      unresolved_parents (load_data rows) p"
    then have l: "lists_sets as_list (fst ` set (load_data rows))"
      and np: "(n, p) \<in> set (load_data rows)"
      and u: "unresolved_parents (load_data rows) p" by simp_all
    show "hypotheses as_list (load_data rows) \<noteq> []"
      by (rule hypotheses_nonempty [OF d l])
    show "joint_probability PROBS (load_data rows) g1 g2 T = Inl KeyError" for g1 g2 T
      by (rule joint_probability_unresolved [OF d np u])
    show "main as_list rows = Inl KeyError"
      by (simp add: main_def main_loop_unresolved [OF d l np u])
  }
  assume "\<forall>(n, p) \<in> set (load_data rows). \<not> unresolved_parents (load_data rows) p"
  with d have "well_formed (load_data rows)" by (simp add: well_formed_iff)
  then show "main as_list rows =
        Inr (normalize
          (fold (\<lambda>(one_gene, two_genes, have_trait) probabilities.
                   update probabilities one_gene two_genes have_trait
                     (prod_list (map (individual_factor (load_data rows)
                                        (gene_count one_gene two_genes)
                                        (\<lambda>person. person \<in> have_trait))
                                   (map fst (load_data rows)))))
             (hypotheses as_list (load_data rows)) (init_probabilities (load_data rows))))"
    by (simp add: main_def main_loop_well_formed)
qed

theorem no_pedigree_validation_witness:
  "lists_sets (in_order_of [''A'', ''B''])
     (fst ` set (load_data
        [\<lparr>row_name = ''A'', row_mother = ''B'', row_father = [], row_trait = []\<rparr>,
         \<lparr>row_name = ''B'', row_mother = [], row_father = [], row_trait = []\<rparr>])) \<and>
   (''A'', \<lparr>name = ''A'', mother = Some ''B'', father = None, trait_obs = None\<rparr>)
     \<in> set (load_data
        [\<lparr>row_name = ''A'', row_mother = ''B'', row_father = [], row_trait = []\<rparr>,
         \<lparr>row_name = ''B'', row_mother = [], row_father = [], row_trait = []\<rparr>]) \<and>
   unresolved_parents
     (load_data
        [\<lparr>row_name = ''A'', row_mother = ''B'', row_father = [], row_trait = []\<rparr>,
         \<lparr>row_name = ''B'', row_mother = [], row_father = [], row_trait = []\<rparr>])
     \<lparr>name = ''A'', mother = Some ''B'', father = None, trait_obs = None\<rparr> \<and>
   joint_probability PROBS
     (load_data
        [\<lparr>row_name = ''A'', row_mother = ''B'', row_father = [], row_trait = []\<rparr>,
         \<lparr>row_name = ''B'', row_mother = [], row_father = [], row_trait = []\<rparr>])
     {} {} {} = Inl KeyError \<and>
   main (in_order_of [''A'', ''B''])
     [\<lparr>row_name = ''A'', row_mother = ''B'', row_father = [], row_trait = []\<rparr>,
      \<lparr>row_name = ''B'', row_mother = [], row_father = [], row_trait = []\<rparr>] = Inl KeyError \<and>
   map_of (load_data
     [\<lparr>row_name = ''A'', row_mother = [], row_father = [], row_trait = ''1''\<rparr>,
      \<lparr>row_name = ''B'', row_mother = [], row_father = [], row_trait = []\<rparr>,
      \<lparr>row_name = ''A'', row_mother = [], row_father = [], row_trait = ''0''\<rparr>]) ''A'' =
     Some \<lparr>name = ''A'', mother = None, father = None, trait_obs = Some False\<rparr> \<and>
   well_formed (load_data
     [\<lparr>row_name = ''A'', row_mother = [], row_father = [], row_trait = ''1''\<rparr>,
      \<lparr>row_name = ''B'', row_mother = [], row_father = [], row_trait = []\<rparr>,
      \<lparr>row_name = ''A'', row_mother = [], row_father = [], row_trait = ''0''\<rparr>]) \<and>
   (\<exists>table. main (in_order_of [''A'', ''B''])
     [\<lparr>row_name = ''A'', row_mother = [], row_father = [], row_trait = ''1''\<rparr>,
      \<lparr>row_name = ''B'', row_mother = [], row_father = [], row_trait = []\<rparr>,
      \<lparr>row_name = ''A'', row_mother = [], row_father = [], row_trait = ''0''\<rparr>] = Inr table)"
proof -
  let ?rows = "[\<lparr>row_name = ''A'', row_mother = ''B'', row_father = [], row_trait = []\<rparr>,
      \<lparr>row_name = ''B'', row_mother = [], row_father = [], row_trait = []\<rparr>]"
  let ?dup = "[\<lparr>row_name = ''A'', row_mother = [], row_father = [], row_trait = ''1''\<rparr>,
      \<lparr>row_name = ''B'', row_mother = [], row_father = [], row_trait = []\<rparr>,
      \<lparr>row_name = ''A'', row_mother = [], row_father = [], row_trait = ''0''\<rparr>]"
  let ?a = "\<lparr>name = ''A'', mother = Some ''B'', father = None, trait_obs = None\<rparr>"
  have p: "load_data ?rows =
      [(''A'', ?a), (''B'', \<lparr>name = ''B'', mother = None, father = None, trait_obs = None\<rparr>)]"
    by (simp add: load_data_def person_of_row_def or_None_def)
  have "lists_sets (in_order_of [''A'', ''B'']) (set [''A'', ''B''])"
    by (rule lists_sets_in_order_of) simp
  then have l: "lists_sets (in_order_of [''A'', ''B'']) (fst ` set (load_data ?rows))"
    by (simp add: p)
  have m: "(''A'', ?a) \<in> set (load_data ?rows)" by (simp add: p)
  have u: "unresolved_parents (load_data ?rows) ?a" by (simp add: unresolved_parents_def)
  note t1 = no_pedigree_validation [of ?rows _ _ "in_order_of [''A'', ''B'']" "''A''" ?a]
  from t1 l m u have e: "joint_probability PROBS (load_data ?rows) {} {} {} = Inl KeyError"
    "main (in_order_of [''A'', ''B'']) ?rows = Inl KeyError" by blast+
  have q: "load_data ?dup =
      [(''A'', \<lparr>name = ''A'', mother = None, father = None, trait_obs = Some False\<rparr>),
       (''B'', \<lparr>name = ''B'', mother = None, father = None, trait_obs = None\<rparr>)]"
    by (simp add: load_data_def person_of_row_def or_None_def)
  have w: "well_formed (load_data ?dup)" by (simp add: q well_formed_def)
  then have nu: "\<forall>(n, p) \<in> set (load_data ?dup). \<not> unresolved_parents (load_data ?dup) p"
    by (simp add: well_formed_iff)
  note t2 = no_pedigree_validation [of ?dup "''A''" _ "in_order_of [''A'', ''B'']"]
  from t2 have k: "map_of (load_data ?dup) ''A'' =
      Some \<lparr>name = ''A'', mother = None, father = None, trait_obs = Some False\<rparr>"
    by (simp add: person_of_row_def or_None_def)
  from t2 nu have "\<exists>table. main (in_order_of [''A'', ''B'']) ?dup = Inr table" by blast
  with l m u e k w show ?thesis by blast
qed

section \<open>Sums over the enumerated hypotheses\<close>

lemma sum_Pow_insert:
  fixes f :: "'a set \<Rightarrow> rat"
  assumes "finite A" and "x \<notin> A"
  shows "sum f (Pow (insert x A)) = sum f (Pow A) + sum (\<lambda>S. f (insert x S)) (Pow A)"
proof -
  have inj: "inj_on (insert x) (Pow A)"
    using assms(2) by (auto simp: inj_on_def) 
  have disj: "Pow A \<inter> insert x ` Pow A = {}"
    using assms(2) by auto
  have "sum f (Pow (insert x A)) = sum f (Pow A \<union> insert x ` Pow A)"
    by (simp add: Pow_insert)
  also have "\<dots> = sum f (Pow A) + sum f (insert x ` Pow A)"
    using assms(1) disj by (intro sum.union_disjoint) auto
  also have "sum f (insert x ` Pow A) = sum (\<lambda>S. f (insert x S)) (Pow A)"
    using inj by (simp add: sum.reindex)
  finally show ?thesis .
qed

lemma sum_trait_sets3:
  fixes h :: "bool \<Rightarrow> bool \<Rightarrow> bool \<Rightarrow> rat"
  assumes "a \<noteq> b" "a \<noteq> c" "b \<noteq> c"
  shows "(\<Sum>T\<in>Pow {a, b, c}. h (a \<in> T) (b \<in> T) (c \<in> T)) =
         (\<Sum>t1\<in>UNIV. \<Sum>t2\<in>UNIV. \<Sum>t3\<in>UNIV. h t1 t2 t3)"
  using assms by (simp add: sum_Pow_insert UNIV_bool)

lemma sum_gene_sets3:
  fixes h :: "nat \<Rightarrow> nat \<Rightarrow> nat \<Rightarrow> rat"
  assumes "a \<noteq> b" "a \<noteq> c" "b \<noteq> c"
  shows "(\<Sum>G1\<in>Pow {a, b, c}. \<Sum>G2\<in>Pow ({a, b, c} - G1).
            h (gene_count G1 G2 a) (gene_count G1 G2 b) (gene_count G1 G2 c)) =
         (\<Sum>i\<in>{0, 1, 2}. \<Sum>j\<in>{0, 1, 2}. \<Sum>k\<in>{0, 1, 2}. h i j k)"
proof -
  have ne: "b \<noteq> a" "c \<noteq> a" "c \<noteq> b" using assms by auto
  show ?thesis
    using assms ne
    by (simp add: sum_Pow_insert insert_Diff_if gene_count_def)
qed

lemma sum_list_concat_map:
  fixes f :: "'b \<Rightarrow> rat"
  shows "sum_list (map f (concat (map g xs))) = sum_list (map (\<lambda>x. sum_list (map f (g x))) xs)"
  by (induction xs) simp_all

lemma sum_list_gene_sets:
  fixes f :: "string set \<times> string set \<Rightarrow> rat"
  assumes l: "lists_sets as_list (fst ` set people)"
  shows "sum_list (map f (gene_sets as_list people)) =
     (\<Sum>G1\<in>Pow (fst ` set people). \<Sum>G2\<in>Pow (fst ` set people - G1). f (G1, G2))"
proof -
  let ?N = "fst ` set people"
  have pw: "sum_list (map g (powerset (as_list S))) = sum g (Pow S)"
    if "S \<subseteq> ?N" for S and g :: "string set \<Rightarrow> rat"
  proof -
    from l that have "set (as_list S) = S" "distinct (as_list S)"
      by (simp_all add: lists_sets_def)
    with sum_list_powerset [of "as_list S" g] show ?thesis by simp
  qed
  have "sum_list (map f (gene_sets as_list people)) =
      sum_list (map (\<lambda>G1. sum_list (map (\<lambda>G2. f (G1, G2)) (powerset (as_list (?N - G1)))))
        (powerset (as_list ?N)))"
    by (simp add: gene_sets_def sum_list_concat_map comp_def)
  also have "\<dots> = sum_list (map (\<lambda>G1. \<Sum>G2\<in>Pow (?N - G1). f (G1, G2)) (powerset (as_list ?N)))"
    by (simp add: pw)
  also have "\<dots> = (\<Sum>G1\<in>Pow ?N. \<Sum>G2\<in>Pow (?N - G1). f (G1, G2))"
    by (rule pw) simp
  finally show ?thesis .
qed

lemma distinct_trait_sets:
  assumes "lists_sets as_list (fst ` set people)"
  shows "distinct (trait_sets as_list people)"
proof -
  from assms have "distinct (as_list (fst ` set people))" by (simp add: lists_sets_def)
  then show ?thesis by (simp add: trait_sets_def distinct_powerset)
qed

lemma sum_list_hypotheses:
  fixes f :: "string set \<times> string set \<times> string set \<Rightarrow> rat"
  assumes d: "distinct (map fst people)" and l: "lists_sets as_list (fst ` set people)"
  shows "sum_list (map f (hypotheses as_list people)) =
     (\<Sum>T\<in>{T \<in> Pow (fst ` set people). agrees people T}.
        \<Sum>G1\<in>Pow (fst ` set people). \<Sum>G2\<in>Pow (fst ` set people - G1). f (G1, G2, T))"
proof -
  have "sum_list (map f (hypotheses as_list people)) =
      sum_list (map (\<lambda>T. sum_list (map (\<lambda>(G1, G2). f (G1, G2, T)) (gene_sets as_list people)))
        (trait_sets as_list people))"
    by (simp add: hypotheses_def sum_list_concat_map comp_def case_prod_unfold)
  also have "\<dots> = sum_list (map (\<lambda>T. \<Sum>G1\<in>Pow (fst ` set people).
      \<Sum>G2\<in>Pow (fst ` set people - G1). f (G1, G2, T)) (trait_sets as_list people))"
    by (simp add: sum_list_gene_sets [OF l])
  also have "\<dots> = (\<Sum>T\<in>set (trait_sets as_list people). \<Sum>G1\<in>Pow (fst ` set people).
      \<Sum>G2\<in>Pow (fst ` set people - G1). f (G1, G2, T))"
    by (rule sum_list_distinct_conv_sum_set [OF distinct_trait_sets [OF l]])
  finally show ?thesis by (simp only: set_trait_sets [OF d l])
qed

section \<open>The enumeration covers the sample space\<close>

lemma family_weight_total:
  "(\<Sum>t1\<in>UNIV. \<Sum>t2\<in>UNIV. \<Sum>t3\<in>UNIV. \<Sum>i\<in>{0, 1, 2}. \<Sum>j\<in>{0, 1, 2}. \<Sum>k\<in>{0, 1, 2}.
      family_weight fa ma i j k t1 t2 t3) = 1"
  by (cases fa; cases ma)
    (simp_all add: UNIV_bool family_weight_def genePrior_def traitGivenGene_def inherits_def
      transmits_def mutationRate_def)


text \<open>
  Claim C4. For a pedigree of two individuals without parents and one child with both
  parents recorded among them, nobody with an observed trait, \<open>joint_probability\<close>
  returns a number on every hypothesis that \<open>main\<close> enumerates, and these numbers sum
  to 1.
\<close>

theorem family_total_probability:
  assumes l: "lists_sets as_list {a, b, c}"
    and abc: "a \<noteq> b" "a \<noteq> c" "b \<noteq> c"
    and d: "distinct (map fst people)"
    and p: "set people = {(a, ra), (b, rb), (c, rc)}"
    and ra: "mother ra = None" "father ra = None" "trait_obs ra = None"
    and rb: "mother rb = None" "father rb = None" "trait_obs rb = None"
    and rc: "mother rc = Some m" "father rc = Some f" "trait_obs rc = None"
    and mf: "m \<in> {a, b}" "f \<in> {a, b}"
  shows "\<exists>ps. map (\<lambda>(one_gene, two_genes, have_trait).
                    joint_probability PROBS people one_gene two_genes have_trait)
               (hypotheses as_list people) = map Inr ps \<and>
              sum_list ps = 1"
proof -
  have N: "fst ` set people = {a, b, c}" by (simp add: p)
  have wf: "well_formed people"
    unfolding well_formed_def using d ra rb rc mf by (auto simp: p)
  have ma: "map_of people a = Some ra" and mb: "map_of people b = Some rb"
    and mc: "map_of people c = Some rc"
    using d by (simp_all add: p)
  define F where "F = (\<lambda>(g1, g2, T).
    prod_list (map (individual_factor people (gene_count g1 g2) (\<lambda>x. x \<in> T)) (map fst people)))"
  have jp: "map (\<lambda>(g1, g2, T). joint_probability PROBS people g1 g2 T)
      (hypotheses as_list people) = map Inr (map F (hypotheses as_list people))"
    by (simp add: joint_probability_product [OF wf] F_def case_prod_unfold)
  have sel: "gene_count g1 g2 x = (if x = a then gene_count g1 g2 a else gene_count g1 g2 b)"
    if "x \<in> {a, b}" for x g1 g2
    using that abc by auto
  have F: "F (g1, g2, T) =
      family_weight (f = a) (m = a) (gene_count g1 g2 a) (gene_count g1 g2 b) (gene_count g1 g2 c)
        (a \<in> T) (b \<in> T) (c \<in> T)" for g1 g2 T
  proof -
    let ?phi = "individual_factor people (gene_count g1 g2) (\<lambda>x. x \<in> T)"
    have "F (g1, g2, T) = prod ?phi (set (map fst people))"
      unfolding F_def using d by (simp add: prod.distinct_set_conv_list del: set_map)
    also have "\<dots> = ?phi a * ?phi b * ?phi c"
      using abc by (simp add: N mult.assoc)
    also have "\<dots> = family_weight (f = a) (m = a) (gene_count g1 g2 a) (gene_count g1 g2 b)
        (gene_count g1 g2 c) (a \<in> T) (b \<in> T) (c \<in> T)"
      by (simp add: individual_factor_def ma mb mc ra rb rc family_weight_def
          sel [OF mf(1)] sel [OF mf(2)])
    finally show ?thesis .
  qed
  have ag: "{T \<in> Pow {a, b, c}. agrees people T} = Pow {a, b, c}"
    using ra rb rc by (auto simp: agrees_def p)
  have "sum_list (map F (hypotheses as_list people)) =
      (\<Sum>T\<in>Pow {a, b, c}. \<Sum>G1\<in>Pow {a, b, c}. \<Sum>G2\<in>Pow ({a, b, c} - G1). F (G1, G2, T))"
    using sum_list_hypotheses [OF d, of as_list F] l unfolding N ag by blast
  also have "\<dots> = (\<Sum>T\<in>Pow {a, b, c}. \<Sum>i\<in>{0, 1, 2}. \<Sum>j\<in>{0, 1, 2}. \<Sum>k\<in>{0, 1, 2}.
      family_weight (f = a) (m = a) i j k (a \<in> T) (b \<in> T) (c \<in> T))"
    unfolding F
    by (rule sum.cong [OF refl])
      (rule sum_gene_sets3 [OF abc, of "\<lambda>i j k. family_weight (f = a) (m = a) i j k _ _ _"])
  also have "\<dots> = (\<Sum>t1\<in>UNIV. \<Sum>t2\<in>UNIV. \<Sum>t3\<in>UNIV. \<Sum>i\<in>{0, 1, 2}. \<Sum>j\<in>{0, 1, 2}.
      \<Sum>k\<in>{0, 1, 2}. family_weight (f = a) (m = a) i j k t1 t2 t3)"
    by (rule sum_trait_sets3 [OF abc, of "\<lambda>t1 t2 t3. \<Sum>i\<in>{0, 1, 2}. \<Sum>j\<in>{0, 1, 2}.
      \<Sum>k\<in>{0, 1, 2}. family_weight (f = a) (m = a) i j k t1 t2 t3"])
  also have "\<dots> = 1" by (rule family_weight_total)
  finally have "sum_list (map F (hypotheses as_list people)) = 1" .
  with jp show ?thesis by blast
qed

theorem family_total_probability_witness:
  "lists_sets (in_order_of [''Harry'', ''James'', ''Lily'']) {''James'', ''Lily'', ''Harry''} \<and>
   ''James'' \<noteq> ''Lily'' \<and> ''James'' \<noteq> ''Harry'' \<and> ''Lily'' \<noteq> ''Harry'' \<and>
   distinct (map fst
     [(''Harry'', \<lparr>name = ''Harry'', mother = Some ''Lily'', father = Some ''James'', trait_obs = None\<rparr>),
      (''James'', \<lparr>name = ''James'', mother = None, father = None, trait_obs = None\<rparr>),
      (''Lily'', \<lparr>name = ''Lily'', mother = None, father = None, trait_obs = None\<rparr>)]) \<and>
   (\<exists>ps. map (\<lambda>(one_gene, two_genes, have_trait).
               joint_probability PROBS
                 [(''Harry'', \<lparr>name = ''Harry'', mother = Some ''Lily'', father = Some ''James'', trait_obs = None\<rparr>),
                  (''James'', \<lparr>name = ''James'', mother = None, father = None, trait_obs = None\<rparr>),
                  (''Lily'', \<lparr>name = ''Lily'', mother = None, father = None, trait_obs = None\<rparr>)]
                 one_gene two_genes have_trait)
          (hypotheses (in_order_of [''Harry'', ''James'', ''Lily''])
             [(''Harry'', \<lparr>name = ''Harry'', mother = Some ''Lily'', father = Some ''James'', trait_obs = None\<rparr>),
              (''James'', \<lparr>name = ''James'', mother = None, father = None, trait_obs = None\<rparr>),
              (''Lily'', \<lparr>name = ''Lily'', mother = None, father = None, trait_obs = None\<rparr>)]) =
        map Inr ps \<and>
        sum_list ps = 1)"
proof -
  let ?h = "\<lparr>name = ''Harry'', mother = Some ''Lily'', father = Some ''James'', trait_obs = None\<rparr>"
  let ?j = "\<lparr>name = ''James'', mother = None, father = None, trait_obs = None\<rparr>"
  let ?l = "\<lparr>name = ''Lily'', mother = None, father = None, trait_obs = None\<rparr>"
  let ?people = "[(''Harry'', ?h), (''James'', ?j), (''Lily'', ?l)]"
  have "lists_sets (in_order_of [''Harry'', ''James'', ''Lily'']) (set [''Harry'', ''James'', ''Lily''])"
    by (rule lists_sets_in_order_of) simp
  moreover have "set [''Harry'', ''James'', ''Lily''] = {''James'', ''Lily'', ''Harry''}"
    by auto
  ultimately have l: "lists_sets (in_order_of [''Harry'', ''James'', ''Lily''])
      {''James'', ''Lily'', ''Harry''}" by simp
  have n: "''James'' \<noteq> ''Lily''" "''James'' \<noteq> ''Harry''" "''Lily'' \<noteq> ''Harry''" by simp_all
  have d: "distinct (map fst ?people)" by simp
  have s: "set ?people = {(''James'', ?j), (''Lily'', ?l), (''Harry'', ?h)}" by auto
  have r: "mother ?j = None" "father ?j = None" "trait_obs ?j = None"
    "mother ?l = None" "father ?l = None" "trait_obs ?l = None"
    "mother ?h = Some ''Lily''" "father ?h = Some ''James''" "trait_obs ?h = None"
    "''Lily'' \<in> {''James'', ''Lily''}" "''James'' \<in> {''James'', ''Lily''}"
    by simp_all
  from family_total_probability [OF l n d s r] l n d show ?thesis by blast
qed

section \<open>Normalization of the table of main\<close>

text \<open>
  The table that the loops of \<open>main\<close> build has equal gene and trait sums for every
  person, and on an entry with equal, non-zero sums \<open>normalize\<close> makes both
  distributions sum to 1.
\<close>

lemma balanced_accumulate:
  "balanced probabilities \<Longrightarrow> accumulate people h probabilities = Inr probabilities' \<Longrightarrow>
   balanced probabilities'"
  by (cases h) (auto simp: accumulate_def bind_err_def balanced_update split: sum.splits)

lemma balanced_fold_err:
  "balanced probabilities \<Longrightarrow> fold_err (accumulate people) hs probabilities = Inr probabilities' \<Longrightarrow>
   balanced probabilities'"
proof (induction hs arbitrary: probabilities)
  case (Cons h hs)
  from Cons.prems(2) obtain q where q: "accumulate people h probabilities = Inr q"
    "fold_err (accumulate people) hs q = Inr probabilities'"
    by (auto split: sum.splits)
  from balanced_accumulate [OF Cons.prems(1) q(1)] q(2) show ?case by (rule Cons.IH)
qed simp

lemma main_loop_balanced:
  "main_loop as_list people = Inr probabilities \<Longrightarrow> balanced probabilities"
  unfolding main_loop_hypotheses by (rule balanced_fold_err [OF balanced_init])

lemma normalize_entry_balanced:
  assumes "gene2 e + gene1 e + gene0 e = trait_True e + trait_False e"
    and "gene2 e + gene1 e + gene0 e \<noteq> 0"
  shows "gene2 (normalize_entry e) + gene1 (normalize_entry e) + gene0 (normalize_entry e) = 1"
    and "trait_True (normalize_entry e) + trait_False (normalize_entry e) = 1"
proof -
  let ?s = "gene2 e + gene1 e + gene0 e"
  have g: "gene2 e / ?s + gene1 e / ?s + gene0 e / ?s = 1"
    using assms(2) by (simp add: add_divide_distrib [symmetric])
  from assms(2) g show "gene2 (normalize_entry e) + gene1 (normalize_entry e)
      + gene0 (normalize_entry e) = 1"
    by (simp add: normalize_entry_def Let_def)
  have t: "trait_True e / ?s + trait_False e / ?s = 1"
    using assms(2) by (simp add: add_divide_distrib [symmetric] assms(1) [symmetric])
  from assms t show "trait_True (normalize_entry e) + trait_False (normalize_entry e) = 1"
    by (simp add: normalize_entry_def Let_def)
qed

section \<open>A child of two parents without the gene\<close>

text \<open>
  Claim C8. For a child whose two recorded parents are individuals of the pedigree and
  have no copy in the hypothesis (they are in neither \<open>one_gene\<close> nor \<open>two_genes\<close>), the
  factor that \<open>joint_probability\<close> computes for the child is its trait probability times
  the gene factor \<open>(1 - mutation)\<^sup>2\<close> when the child has no copy,
  \<open>2 * mutation * (1 - mutation)\<close> when it has one copy and \<open>mutation\<^sup>2\<close> when it has two.
\<close>

theorem child_of_parents_without_gene:
  assumes r: "map_of people person = Some r"
    and f: "father r = Some f" "f \<in> fst ` set people" "f \<notin> one_gene \<union> two_genes"
    and m: "mother r = Some m" "m \<in> fst ` set people" "m \<notin> one_gene \<union> two_genes"
    and t: "trait P (gene_count one_gene two_genes person) = Some row"
  shows "person_p P people (parse_genes people one_gene two_genes)
           (parse_trait people have_trait) person =
         Inr ((if gene_count one_gene two_genes person = 0 then (1 - mutation P)\<^sup>2
               else if gene_count one_gene two_genes person = 1
                 then 2 * mutation P * (1 - mutation P)
               else (mutation P)\<^sup>2)
              * row (person \<in> have_trait))"
proof -
  from r have n: "person \<in> fst ` set people"
    by (cases "person \<in> fst ` set people") (simp_all add: map_of_eq_None_iff [symmetric])
  have lr: "lookup (map_of people) person = Inr r" by (simp add: lookup_def r)
  have lf: "lookup_ref (parse_genes people one_gene two_genes) (Some f) = Inr 0"
    using f by (simp add: lookup_ref_parse_genes gene_count_def)
  have lm: "lookup_ref (parse_genes people one_gene two_genes) (Some m) = Inr 0"
    using m by (simp add: lookup_ref_parse_genes gene_count_def)
  have lt: "lookup (trait P) (gene_count one_gene two_genes person) = Inr row"
    by (simp add: lookup_def t)
  have c: "child_p_gene (gene_count one_gene two_genes person) (p_parents P 0) (p_parents P 0) =
      Some (if gene_count one_gene two_genes person = 0 then (1 - mutation P)\<^sup>2
            else if gene_count one_gene two_genes person = 1
              then 2 * mutation P * (1 - mutation P)
            else (mutation P)\<^sup>2)"
    using gene_count_le [of one_gene two_genes person]
    by (simp add: child_p_gene_def p_parents_def power2_eq_square)
  have "person_p P people (parse_genes people one_gene two_genes)
      (parse_trait people have_trait) person =
    (case child_p_gene (gene_count one_gene two_genes person) (p_parents P 0) (p_parents P 0) of
       None \<Rightarrow> Inl UnboundLocalError
     | Some p_gene \<Rightarrow> Inr (p_gene * row (person \<in> have_trait)))"
    by (simp only: person_p_def lr bind_err_simps f(1) m(1) lf lm lt
        lookup_parse_genes [OF n] lookup_parse_trait [OF n] option.distinct simp_thms if_False)
  then show ?thesis by (simp only: c option.case)
qed

theorem child_of_parents_without_gene_witness:
  "map_of test_people ''Harry'' =
     Some \<lparr>name = ''Harry'', mother = Some ''Lily'', father = Some ''James'', trait_obs = None\<rparr> \<and>
   ''James'' \<in> fst ` set test_people \<and> ''Lily'' \<in> fst ` set test_people \<and>
   person_p PROBS test_people (parse_genes test_people {} {}) (parse_trait test_people {})
     ''Harry'' = Inr (0.99\<^sup>2 * 0.99) \<and>
   person_p PROBS test_people (parse_genes test_people {''Harry''} {}) (parse_trait test_people {})
     ''Harry'' = Inr (2 * 0.01 * 0.99 * 0.44) \<and>
   person_p PROBS test_people (parse_genes test_people {} {''Harry''})
     (parse_trait test_people {''Harry''}) ''Harry'' = Inr (0.01\<^sup>2 * 0.65)"
proof -
  let ?h = "\<lparr>name = ''Harry'', mother = Some ''Lily'', father = Some ''James'', trait_obs = None\<rparr>"
  have r: "map_of test_people ''Harry'' = Some ?h" by (simp add: test_people_def)
  have k: "''James'' \<in> fst ` set test_people" "''Lily'' \<in> fst ` set test_people"
    by (simp_all add: test_people_def)
  have f: "father ?h = Some ''James''" and m: "mother ?h = Some ''Lily''" by simp_all
  have t0: "trait PROBS (gene_count {} {} ''Harry'') = Some (\<lambda>t. if t then 0.01 else 0.99)"
    by (simp add: PROBS_def gene_count_def)
  have t1: "trait PROBS (gene_count {''Harry''} {} ''Harry'') = Some (\<lambda>t. if t then 0.56 else 0.44)"
    by (simp add: PROBS_def gene_count_def)
  have t2: "trait PROBS (gene_count {} {''Harry''} ''Harry'') = Some (\<lambda>t. if t then 0.65 else 0.35)"
    by (simp add: PROBS_def gene_count_def)
  have mu: "mutation PROBS = 0.01" by (simp add: PROBS_def)
  have "person_p PROBS test_people (parse_genes test_people {} {}) (parse_trait test_people {})
     ''Harry'' = Inr (0.99\<^sup>2 * 0.99)"
    using child_of_parents_without_gene [OF r f k(1) _ m k(2) _ t0, of "{}"]
    by (simp add: gene_count_def mu)
  moreover have "person_p PROBS test_people (parse_genes test_people {''Harry''} {})
     (parse_trait test_people {}) ''Harry'' = Inr (2 * 0.01 * 0.99 * 0.44)"
    using child_of_parents_without_gene [OF r f k(1) _ m k(2) _ t1, of "{}"]
    by (simp add: gene_count_def mu)
  moreover have "person_p PROBS test_people (parse_genes test_people {} {''Harry''})
     (parse_trait test_people {''Harry''}) ''Harry'' = Inr (0.01\<^sup>2 * 0.65)"
    using child_of_parents_without_gene [OF r f k(1) _ m k(2) _ t2, of "{''Harry''}"]
    by (simp add: gene_count_def mu)
  ultimately show ?thesis using r k by simp
qed

end
